theory Spec2Isabelle
  imports Main "HOL-Library.Word"
begin

section \<open>JavaScript values\<close>

text \<open>
  The library is dynamically typed: its functions inspect the shape of what they are
  given (\<^verbatim>\<open>typeof\<close>, \<^verbatim>\<open>Array.isArray\<close>, \<^verbatim>\<open>=== undefined\<close>).
  Values are therefore one universe. Numbers are integers, strings are lists of code
  units, an object is an association list whose first binding of a key is the one read,
  a \<^verbatim>\<open>Buffer\<close> is a list of bytes, and a \<^verbatim>\<open>Date\<close> is kept as the time
  string it was constructed from. Functions are not values of this universe.
\<close>

datatype jsval =
    JUndefined
  | JNull
  | JBool bool
  | JNum int
  | JStr string
  | JArr "jsval list"
  | JObj "(string \<times> jsval) list"
  | JBuf "8 word list"
  | JDate string

text \<open>
  An evaluation either yields a value, or throws a value, or leaves the part of
  JavaScript that is modelled here (\<open>Unsupported\<close>: implicit string-to-number and
  array-to-string coercions).
\<close>

datatype 'a res = Ok 'a | Throw jsval | Unsupported

definition res_bind :: "'a res \<Rightarrow> ('a \<Rightarrow> 'b res) \<Rightarrow> 'b res" where
  "res_bind m f = (case m of Ok x \<Rightarrow> f x | Throw e \<Rightarrow> Throw e | Unsupported \<Rightarrow> Unsupported)"

fun res_map :: "('a \<Rightarrow> 'b res) \<Rightarrow> 'a list \<Rightarrow> 'b list res" where
  "res_map f [] = Ok []"
| "res_map f (x # xs) =
     res_bind (f x) (\<lambda>y. res_bind (res_map f xs) (\<lambda>ys. Ok (y # ys)))"

text \<open>The engine's \<^verbatim>\<open>TypeError\<close> (its message is engine specific and left out) and
  the library's own \<^verbatim>\<open>new Error(message)\<close>.\<close>

definition TypeError :: jsval where
  "TypeError = JObj [(''name'', JStr ''TypeError'')]"

definition ReferenceError :: jsval where
  "ReferenceError = JObj [(''name'', JStr ''ReferenceError'')]"

definition new_Error :: "string \<Rightarrow> jsval" where
  "new_Error msg = JObj [(''name'', JStr ''Error''), (''message'', JStr msg)]"

text \<open>
  \<^verbatim>\<open>v.k\<close> for the property names the library reads (\<^verbatim>\<open>name\<close>,
  \<^verbatim>\<open>lde_message\<close>, \<^verbatim>\<open>object\<close>, \<^verbatim>\<open>attributes\<close>, ...): none of them
  is built into a primitive, an array or a buffer, so only objects can carry them; reading
  a property of \<^verbatim>\<open>undefined\<close> or \<^verbatim>\<open>null\<close> throws.
\<close>

fun get_prop :: "jsval \<Rightarrow> string \<Rightarrow> jsval res" where
  "get_prop JUndefined k = Throw TypeError"
| "get_prop JNull k = Throw TypeError"
| "get_prop (JObj kvs) k = Ok (case map_of kvs k of Some v \<Rightarrow> v | None \<Rightarrow> JUndefined)"
| "get_prop v k = Ok JUndefined"

fun js_truthy :: "jsval \<Rightarrow> bool" where
  "js_truthy JUndefined = False"
| "js_truthy JNull = False"
| "js_truthy (JBool b) = b"
| "js_truthy (JNum n) = (n \<noteq> 0)"
| "js_truthy (JStr s) = (s \<noteq> [])"
| "js_truthy v = True"

fun js_typeof :: "jsval \<Rightarrow> string" where
  "js_typeof JUndefined = ''undefined''"
| "js_typeof JNull = ''object''"
| "js_typeof (JBool b) = ''boolean''"
| "js_typeof (JNum n) = ''number''"
| "js_typeof (JStr s) = ''string''"
| "js_typeof v = ''object''"

subsection \<open>Searching and splitting\<close>

text \<open>\<^verbatim>\<open>indexOf\<close> on a string or a buffer: the position of the first occurrence
  of \<open>sub\<close>, or \<open>-1\<close>.\<close>

fun index_from :: "'a list \<Rightarrow> 'a list \<Rightarrow> nat \<Rightarrow> int" where
  "index_from sub [] i = (if sub = [] then int i else - 1)"
| "index_from sub (c # cs) i =
     (if take (length sub) (c # cs) = sub then int i else index_from sub cs (Suc i))"

definition indexOf :: "'a list \<Rightarrow> 'a list \<Rightarrow> int" where
  "indexOf s sub = index_from sub s 0"

text \<open>\<^verbatim>\<open>Array.prototype.indexOf\<close> compares with \<^verbatim>\<open>===\<close>; on the values of
  this universe and a string argument that is equality of values.\<close>

fun elem_index_from :: "jsval \<Rightarrow> jsval list \<Rightarrow> nat \<Rightarrow> int" where
  "elem_index_from v [] i = - 1"
| "elem_index_from v (x # xs) i = (if x = v then int i else elem_index_from v xs (Suc i))"

definition utf8_ascii :: "string \<Rightarrow> 8 word list" where
  "utf8_ascii s = map (\<lambda>c. of_nat (of_char c)) s"

text \<open>\<^verbatim>\<open>v.indexOf(sub)\<close> with a string argument of ASCII characters. Strings,
  arrays and buffers have the method; calling it on anything else is calling
  \<^verbatim>\<open>undefined\<close> (or a value that is not a function).\<close>

fun call_indexOf :: "jsval \<Rightarrow> string \<Rightarrow> int res" where
  "call_indexOf JUndefined sub = Throw TypeError"
| "call_indexOf JNull sub = Throw TypeError"
| "call_indexOf (JStr s) sub = Ok (indexOf s sub)"
| "call_indexOf (JArr xs) sub = Ok (elem_index_from (JStr sub) xs 0)"
| "call_indexOf (JBuf bs) sub = Ok (indexOf bs (utf8_ascii sub))"
| "call_indexOf v sub = Throw TypeError"

section \<open>Error classifier\<close>

text \<open>
  \<^verbatim>\<open>
  static resolveBindError(error) {
      if(error.name !== 'InvalidCredentialsError' || !error.lde_message)
          return 'Unknown Auth Error'
      if (error.lde_message.indexOf('775') !== -1)
          return 'Account is locked out';
      return 'Invalid username or password';
  }
  \<close>
\<close>

definition resolveBindError :: "jsval \<Rightarrow> string res" where
  "resolveBindError error =
     res_bind (get_prop error ''name'') (\<lambda>n.
       if n \<noteq> JStr ''InvalidCredentialsError'' then Ok ''Unknown Auth Error''
       else res_bind (get_prop error ''lde_message'') (\<lambda>l.
         if \<not> js_truthy l then Ok ''Unknown Auth Error''
         else res_bind (call_indexOf l ''775'') (\<lambda>i.
           if i \<noteq> - 1 then Ok ''Account is locked out''
           else Ok ''Invalid username or password'')))"

subsection \<open>Strings and arrays\<close>

text \<open>\<^verbatim>\<open>s.split(sep)\<close> for a separator that is not empty: scanning from the left, each
  occurrence of the separator ends a piece and the scan resumes behind it.\<close>

fun split_pieces :: "string \<Rightarrow> string \<Rightarrow> string list" where
  "split_pieces sep [] = [[]]"
| "split_pieces sep (c # cs) =
     (if take (length sep) (c # cs) = sep
      then [] # split_pieces sep (drop (length sep - 1) cs)
      else (case split_pieces sep cs of
              [] \<Rightarrow> [[c]]
            | p # ps \<Rightarrow> (c # p) # ps))"

definition js_split :: "string \<Rightarrow> string \<Rightarrow> string list" where
  "js_split s sep = (if sep = [] then map (\<lambda>c. [c]) s else split_pieces sep s)"

text \<open>Only strings have \<^verbatim>\<open>split\<close>.\<close>

fun call_split :: "jsval \<Rightarrow> string \<Rightarrow> string list res" where
  "call_split (JStr s) sep = Ok (js_split s sep)"
| "call_split v sep = Throw TypeError"

text \<open>\<^verbatim>\<open>parts[i]\<close> on an array of strings: \<^verbatim>\<open>undefined\<close> out of range.\<close>

definition str_at :: "string list \<Rightarrow> nat \<Rightarrow> jsval" where
  "str_at parts i = (if i < length parts then JStr (parts ! i) else JUndefined)"

fun js_join :: "string \<Rightarrow> string list \<Rightarrow> string" where
  "js_join sep [] = []"
| "js_join sep [x] = x"
| "js_join sep (x # y # ys) = x @ sep @ js_join sep (y # ys)"

definition digit_char :: "nat \<Rightarrow> char" where
  "digit_char d = ''0123456789abcdef'' ! d"

fun show_nat :: "nat \<Rightarrow> string" where
  "show_nat n = (if n < 10 then [digit_char n] else show_nat (n div 10) @ [digit_char (n mod 10)])"

fun hex_nat :: "nat \<Rightarrow> string" where
  "hex_nat n = (if n < 16 then [digit_char n] else hex_nat (n div 16) @ [digit_char (n mod 16)])"

text \<open>\<^verbatim>\<open>n.toString(16)\<close> on an integer.\<close>

definition num_toString16 :: "int \<Rightarrow> string" where
  "num_toString16 n = (if n < 0 then ''-'' @ hex_nat (nat (- n)) else hex_nat (nat n))"

text \<open>\<^verbatim>\<open>v[i]\<close> with a number \<open>i\<close>: an element of an array, a byte of a buffer, a
  one-character string, the property named by the decimal numeral of \<open>i\<close>.\<close>

fun js_index :: "jsval \<Rightarrow> nat \<Rightarrow> jsval res" where
  "js_index JUndefined i = Throw TypeError"
| "js_index JNull i = Throw TypeError"
| "js_index (JArr xs) i = Ok (if i < length xs then xs ! i else JUndefined)"
| "js_index (JBuf bs) i = Ok (if i < length bs then JNum (uint (bs ! i)) else JUndefined)"
| "js_index (JStr s) i = Ok (if i < length s then JStr [s ! i] else JUndefined)"
| "js_index (JObj kvs) i =
     Ok (case map_of kvs (show_nat i) of Some v \<Rightarrow> v | None \<Rightarrow> JUndefined)"
| "js_index v i = Ok JUndefined"

text \<open>\<^verbatim>\<open>a || b\<close>\<close>

definition js_or :: "jsval \<Rightarrow> jsval \<Rightarrow> jsval" where
  "js_or a b = (if js_truthy a then a else b)"

section \<open>Record decoder\<close>

text \<open>
  \<^verbatim>\<open>
  static resolveGroups(entry) {
      if(typeof entry.object !== 'object')
          throw new Error('Invalid entry, entry.object must be an object');
      const memberOf = entry.object.memberOf;
      if(memberOf === undefined) {
          return [];
      } else if(typeof memberOf === 'string') {
          return memberOf.split(',')
              .filter(item => item.indexOf('CN=') !== -1)
              .map(item => item.split('CN=')[1])
      } else if(Array.isArray(memberOf)) {
          return memberOf.map(group => group.split(',')[0].split('CN=')[1]);
      }
      return [];
  }
  \<close>
\<close>

definition group_of_element :: "jsval \<Rightarrow> jsval res" where
  "group_of_element grp =
     res_bind (call_split grp '','') (\<lambda>parts.
       res_bind (call_split (str_at parts 0) ''CN='') (\<lambda>names.
         Ok (str_at names 1)))"

definition resolveGroups :: "jsval \<Rightarrow> jsval res" where
  "resolveGroups entry =
     res_bind (get_prop entry ''object'') (\<lambda>obj.
       if js_typeof obj \<noteq> ''object''
       then Throw (new_Error ''Invalid entry, entry.object must be an object'')
       else res_bind (get_prop obj ''memberOf'') (\<lambda>memberOf.
         case memberOf of
           JUndefined \<Rightarrow> Ok (JArr [])
         | JStr s \<Rightarrow>
             Ok (JArr (map (\<lambda>item. str_at (js_split item ''CN='') 1)
                        (filter (\<lambda>item. indexOf item ''CN='' \<noteq> - 1) (js_split s '',''))))
         | JArr groups \<Rightarrow> res_bind (res_map group_of_element groups) (\<lambda>names. Ok (JArr names))
         | _ \<Rightarrow> Ok (JArr [])))"

text \<open>
  \<^verbatim>\<open>
  static resolveGUID(entry){
      if(!Array.isArray(entry.attributes))
          throw new Error('Attributes must be an array');
      const binaryGUID = entry.attributes.find(attribute => attribute.type === 'objectGUID').buffers[0];
      const guidFormat = [ [3,2,1,0], [5,4], [7,6], [8,9], [10,11,12,13,14,15] ];
      const guidArray = guidFormat.map( part => {
          const stringPart = part.map(byte => {
              const byteString = binaryGUID[byte] < 16 ?
                  `0${binaryGUID[byte].toString(16)}` :
                  binaryGUID[byte].toString(16)
              return byteString
          });
          return `${stringPart.join('')}`;
      });
      return guidArray.join('-');
  }
  \<close>
\<close>

text \<open>\<^verbatim>\<open>attributes.find(attribute => attribute.type === 'objectGUID')\<close>: the first
  element whose type is that string, \<^verbatim>\<open>undefined\<close> when there is none.\<close>

fun find_objectGUID :: "jsval list \<Rightarrow> jsval res" where
  "find_objectGUID [] = Ok JUndefined"
| "find_objectGUID (a # as) =
     res_bind (get_prop a ''type'') (\<lambda>t.
       if t = JStr ''objectGUID'' then Ok a else find_objectGUID as)"

definition guidFormat :: "nat list list" where
  "guidFormat = [[3, 2, 1, 0], [5, 4], [7, 6], [8, 9], [10, 11, 12, 13, 14, 15]]"

text \<open>One byte's string. The comparison \<^verbatim>\<open>x < 16\<close> converts \<open>x\<close> to a number:
  \<^verbatim>\<open>undefined\<close> is not below 16 and \<^verbatim>\<open>null\<close> and the booleans are, and then
  \<^verbatim>\<open>toString\<close> is called on \<open>x\<close>.\<close>

definition byteString :: "jsval \<Rightarrow> nat \<Rightarrow> string res" where
  "byteString binaryGUID byte =
     res_bind (js_index binaryGUID byte) (\<lambda>x.
       case x of
         JNum n \<Rightarrow> Ok (if n < 16 then ''0'' @ num_toString16 n else num_toString16 n)
       | JUndefined \<Rightarrow> Throw TypeError
       | JNull \<Rightarrow> Throw TypeError
       | JBool b \<Rightarrow> Ok (''0'' @ (if b then ''true'' else ''false''))
       | _ \<Rightarrow> Unsupported)"

definition resolveGUID :: "jsval \<Rightarrow> jsval res" where
  "resolveGUID entry =
     res_bind (get_prop entry ''attributes'') (\<lambda>attributes.
       case attributes of
         JArr attrs \<Rightarrow>
           res_bind (find_objectGUID attrs) (\<lambda>attribute.
           res_bind (get_prop attribute ''buffers'') (\<lambda>buffers.
           res_bind (js_index buffers 0) (\<lambda>binaryGUID.
           res_bind (res_map (\<lambda>part.
                       res_bind (res_map (byteString binaryGUID) part) (\<lambda>stringPart.
                         Ok (js_join [] stringPart)))
                     guidFormat) (\<lambda>guidArray.
             Ok (JStr (js_join ''-'' guidArray))))))
       | _ \<Rightarrow> Throw (new_Error ''Attributes must be an array''))"

text \<open>
  \<^verbatim>\<open>
  static createUserObj(entry){
      if(typeof entry !== 'object')
          throw new Error('Entry must be an object')
      return {
          groups: ActiveDirectory.resolveGroups(entry),
          phone: entry.object.telephoneNumber || '',
          name: entry.object.name || '',
          mail: entry.object.mail || '',
          guid: ActiveDirectory.resolveGUID(entry),
          dn: entry.objectName
      };
  }
  \<close>
\<close>

definition field_or_empty :: "jsval \<Rightarrow> string \<Rightarrow> jsval res" where
  "field_or_empty entry k =
     res_bind (get_prop entry ''object'') (\<lambda>obj.
       res_bind (get_prop obj k) (\<lambda>v. Ok (js_or v (JStr []))))"

definition createUserObj :: "jsval \<Rightarrow> jsval res" where
  "createUserObj entry =
     (if js_typeof entry \<noteq> ''object'' then Throw (new_Error ''Entry must be an object'')
      else
        res_bind (resolveGroups entry) (\<lambda>groups.
        res_bind (field_or_empty entry ''telephoneNumber'') (\<lambda>phone.
        res_bind (field_or_empty entry ''name'') (\<lambda>name.
        res_bind (field_or_empty entry ''mail'') (\<lambda>mail.
        res_bind (resolveGUID entry) (\<lambda>guid.
        res_bind (get_prop entry ''objectName'') (\<lambda>dn.
          Ok (JObj [(''groups'', groups), (''phone'', phone), (''name'', name),
                    (''mail'', mail), (''guid'', guid), (''dn'', dn)]))))))))"

text \<open>
  \<^verbatim>\<open>
  static detectLogonType(username) {
      if(username.indexOf('@') !== -1) {
          return 'userPrincipalName';
      } else if(username.toUpperCase().indexOf('DC=') !== -1) {
          return 'distinguishedName';
      } else {
          return 'sAMAccountName';
      }
  }
  \<close>
  Upper-casing is modelled on the ASCII letters; no other character upper-cases to
  \<^verbatim>\<open>D\<close>, \<^verbatim>\<open>C\<close> or \<^verbatim>\<open>=\<close>.
\<close>

definition to_upper :: "char \<Rightarrow> char" where
  "to_upper c = (let n = (of_char c :: nat) in if 97 \<le> n \<and> n \<le> 122 then char_of (n - 32) else c)"

fun call_toUpperCase :: "jsval \<Rightarrow> string res" where
  "call_toUpperCase (JStr s) = Ok (map to_upper s)"
| "call_toUpperCase v = Throw TypeError"

definition detectLogonType :: "jsval \<Rightarrow> string res" where
  "detectLogonType username =
     res_bind (call_indexOf username ''@'') (\<lambda>i.
       if i \<noteq> - 1 then Ok ''userPrincipalName''
       else res_bind (call_toUpperCase username) (\<lambda>upper.
         if indexOf upper ''DC='' \<noteq> - 1 then Ok ''distinguishedName''
         else Ok ''sAMAccountName''))"

text \<open>
  \<^verbatim>\<open>
  static convertToDate(date) {
      const year = date.slice(0,4);   const month = date.slice(4,6);
      const day = date.slice(6, 8);   const hour = date.slice(8, 10);
      const min = date.slice(10, 12); const sec = date.slice(12, 14);
      return new Date(`${year}-${month}-${day}T${hour}:${min}:${sec}.000Z`);
  }
  \<close>
  Arrays and buffers have a \<^verbatim>\<open>slice\<close> too; putting their slices into the template
  is outside the model.
\<close>

definition js_slice :: "string \<Rightarrow> nat \<Rightarrow> nat \<Rightarrow> string" where
  "js_slice s a b = take (b - a) (drop a s)"

fun convertToDate :: "jsval \<Rightarrow> jsval res" where
  "convertToDate (JStr date) =
     Ok (JDate (js_slice date 0 4 @ ''-'' @ js_slice date 4 6 @ ''-'' @ js_slice date 6 8 @ ''T'' @
                js_slice date 8 10 @ '':'' @ js_slice date 10 12 @ '':'' @ js_slice date 12 14 @
                ''.000Z''))"
| "convertToDate (JArr xs) = Unsupported"
| "convertToDate (JBuf bs) = Unsupported"
| "convertToDate v = Throw TypeError"

text \<open>
  \<^verbatim>\<open>
  static cleanSama(sAMA) {
      const parts = sAMA.split('\\')
      return parts[parts.length - 1]
  }
  \<close>
\<close>

definition cleanSama :: "jsval \<Rightarrow> jsval res" where
  "cleanSama sAMA =
     res_bind (call_split sAMA [CHR 0x5C]) (\<lambda>parts. Ok (str_at parts (length parts - 1)))"

section \<open>Bind and search against the directory\<close>

text \<open>
  The instance holds what the constructor stored: \<^verbatim>\<open>this.base\<close>,
  \<^verbatim>\<open>this.searchOptions\<close> and \<^verbatim>\<open>this.ldapjsSettings\<close>.
\<close>

record config =
  base :: jsval
  searchOptions :: jsval
  ldapjsSettings :: jsval

text \<open>
  The ldapjs client is outside the library. What the library does to it is recorded, in
  order, as a list of calls; what it answers is a parameter of every operation:
  whether \<^verbatim>\<open>ldap.createClient\<close> returns a client for the settings or throws (it
  throws an error object, with a name and a message, on settings it cannot use, such as a
  missing url), the \<^verbatim>\<open>err\<close> argument it gives the bind callback, the way a search
  ends (the call throws, the callback gets an error, or the entries are followed by
  \<^verbatim>\<open>'end'\<close> or \<^verbatim>\<open>'error'\<close>), and the \<^verbatim>\<open>'error'\<close> events the client
  itself emits while the bind is awaited.
\<close>

datatype call =
    CreateClient jsval
  | OnError
  | Bind string string
  | Search jsval jsval
  | Unbind

datatype stream_end = End | ErrorEvent jsval

datatype search_reply =
    SearchThrows string string
  | SearchRefused
  | SearchStream "jsval list" stream_end

datatype create_reply = Created | CreateThrows string string

record directory =
  create_reply :: "jsval \<Rightarrow> create_reply"
  client_errors :: "jsval list"
  bind_err :: "string \<Rightarrow> string \<Rightarrow> jsval"
  search_reply :: "jsval \<Rightarrow> jsval \<Rightarrow> search_reply"

type_synonym 'a io = "call list \<Rightarrow> 'a res \<times> call list"

definition io_pure :: "'a res \<Rightarrow> 'a io" where
  "io_pure r = (\<lambda>tr. (r, tr))"

definition io_emit :: "call \<Rightarrow> unit io" where
  "io_emit c = (\<lambda>tr. (Ok (), tr @ [c]))"

definition io_bind :: "'a io \<Rightarrow> ('a \<Rightarrow> 'b io) \<Rightarrow> 'b io" where
  "io_bind m f = (\<lambda>tr. case m tr of
                     (Ok x, tr') \<Rightarrow> f x tr'
                   | (Throw e, tr') \<Rightarrow> (Throw e, tr')
                   | (Unsupported, tr') \<Rightarrow> (Unsupported, tr'))"

text \<open>\<^verbatim>\<open>ldap.createClient(this.ldapjsSettings)\<close>\<close>

definition createClient :: "directory \<Rightarrow> jsval \<Rightarrow> unit io" where
  "createClient dir settings = (\<lambda>tr.
     (case create_reply dir settings of
        Created \<Rightarrow> Ok ()
      | CreateThrows name message \<Rightarrow>
          Throw (JObj [(''name'', JStr name), (''message'', JStr message)]),
      tr @ [CreateClient settings]))"

text \<open>\<^verbatim>\<open>try { ... } catch(err) { ... }\<close>\<close>

definition try_catch :: "'a io \<Rightarrow> (jsval \<Rightarrow> 'a io) \<Rightarrow> 'a io" where
  "try_catch m handler = (\<lambda>tr. case m tr of
                            (Throw e, tr') \<Rightarrow> handler e tr'
                          | other \<Rightarrow> other)"

text \<open>
  \<^verbatim>\<open>
  _bind(client, username, password) {
      if(typeof username !== 'string' || typeof password !== 'string') {
          const err = new Error('Usrname and password must be a string');
          err.name = 'InvalidCredentialsError';
          err.lde_message = 'Usrname and password must be a string';
          throw err;
      }
      return new Promise((resolve, reject) => {
          client.bind(username, password, (err, res) => {
              if (err) { reject(err); return; }
              resolve(res);
          })
      })
  }
  \<close>
  The handler every operation registers with \<^verbatim>\<open>client.on('error', ...)\<close> calls
  \<^verbatim>\<open>client.unbind()\<close> and returns an object that nobody receives; it runs once for
  each event the client emits.
\<close>

definition credentials_error :: jsval where
  "credentials_error =
     JObj [(''name'', JStr ''InvalidCredentialsError''),
           (''message'', JStr ''Usrname and password must be a string''),
           (''lde_message'', JStr ''Usrname and password must be a string'')]"

definition priv_bind :: "directory \<Rightarrow> jsval \<Rightarrow> jsval \<Rightarrow> unit io" where
  "priv_bind dir username password = (\<lambda>tr.
     case (username, password) of
       (JStr u, JStr p) \<Rightarrow>
         (if js_truthy (bind_err dir u p) then Throw (bind_err dir u p) else Ok (),
          tr @ [Bind u p] @ map (\<lambda>e. Unbind) (client_errors dir))
     | _ \<Rightarrow> (Throw credentials_error, tr))"

text \<open>
  \<^verbatim>\<open>
  _search(client, customBase, search) {
      return new Promise((resolve, reject) => {
          const base = typeof customBase === 'string' && customBase ? customBase : this.base;
          let accumulator = [];
          client.search(base, search, (error, res) => {
              if(error) { reject(err); return; }
              res.on('searchEntry', entry => { accumulator.push(entry); });
              res.on('end', res => { resolve(accumulator); return; })
              res.on('error', error => { reject(error); return; });
          })
      })
  }
  \<close>
  \<^verbatim>\<open>client.search\<close> may throw at once on arguments it cannot use (a base or a filter
  it cannot parse): inside the promise's executor, that is the promise's rejection. When
  the client calls back with an error, the callback evaluates \<^verbatim>\<open>err\<close>, a name that
  is not declared there: a \<^verbatim>\<open>ReferenceError\<close>, taken here as the promise's rejection
  too.
\<close>

definition priv_search :: "config \<Rightarrow> directory \<Rightarrow> jsval \<Rightarrow> jsval \<Rightarrow> jsval list io" where
  "priv_search cfg dir customBase search = (\<lambda>tr.
     let b = (if js_typeof customBase = ''string'' \<and> js_truthy customBase
              then customBase else base cfg)
     in (case search_reply dir b search of
           SearchThrows name message \<Rightarrow>
             Throw (JObj [(''name'', JStr name), (''message'', JStr message)])
         | SearchRefused \<Rightarrow> Throw ReferenceError
         | SearchStream accumulator End \<Rightarrow> Ok accumulator
         | SearchStream accumulator (ErrorEvent error) \<Rightarrow> Throw error,
         tr @ [Search b search]))"

section \<open>The three operations\<close>

text \<open>What a spread \<^verbatim>\<open>...v\<close> copies into an object literal: the own enumerable
  properties of \<open>v\<close>, which for a string, an array or a buffer are its indices.\<close>

definition indexed :: "jsval list \<Rightarrow> (string \<times> jsval) list" where
  "indexed xs = map (\<lambda>(i, x). (show_nat i, x)) (enumerate 0 xs)"

fun spread_entries :: "jsval \<Rightarrow> (string \<times> jsval) list" where
  "spread_entries (JObj kvs) = kvs"
| "spread_entries (JStr s) = indexed (map (\<lambda>c. JStr [c]) s)"
| "spread_entries (JArr xs) = indexed xs"
| "spread_entries (JBuf bs) = indexed (map (\<lambda>b. JNum (uint b)) bs)"
| "spread_entries v = []"

text \<open>A value inside a template literal. Arrays, objects, buffers and dates are outside
  the model.\<close>

definition show_int :: "int \<Rightarrow> string" where
  "show_int n = (if n < 0 then ''-'' @ show_nat (nat (- n)) else show_nat (nat n))"

fun js_template :: "jsval \<Rightarrow> string res" where
  "js_template (JStr s) = Ok s"
| "js_template JUndefined = Ok ''undefined''"
| "js_template JNull = Ok ''null''"
| "js_template (JBool b) = Ok (if b then ''true'' else ''false'')"
| "js_template (JNum n) = Ok (show_int n)"
| "js_template v = Unsupported"

text \<open>The catch block of all three operations:
  \<^verbatim>\<open>return { success: false, message: ActiveDirectory.resolveBindError(err), error: err }\<close>\<close>

definition failure :: "jsval \<Rightarrow> jsval res" where
  "failure err =
     res_bind (resolveBindError err) (\<lambda>message.
       Ok (JObj [(''success'', JBool False), (''message'', JStr message), (''error'', err)]))"

text \<open>
  \<^verbatim>\<open>
  async loginUser(username, password, customBase, customSearch) {
      try {
          const client = ldap.createClient(this.ldapjsSettings);
          const usernameType = ActiveDirectory.detectLogonType(username);
          const searchUser = usernameType === 'sAMAccountName' ? ActiveDirectory.cleanSama(username) : username;
          const search = {
              ...this.searchOptions,
              filter: `(${usernameType}=${searchUser})`,
              ...customSearch // Overrides any other search options
          };
          client.on('error', error => {
              client.unbind();
              return { success: false, message: 'Error resolving account', error };
          });
          await this._bind(client, username, password);
          const records = await this._search(client, customBase, search);
          return { success: true, entry: records[0] };
      } catch(err) {
          return { success: false, message: ActiveDirectory.resolveBindError(err), error: err };
      }
  }
  \<close>
  In an object literal a later property replaces an earlier one of the same name; with
  lists read at the first binding, later ones are put in front. Evaluating the template
  has no effect. It throws on a value that cannot be converted to a string: an object with
  a property \<^verbatim>\<open>toString\<close> (which no value of this universe can call), by itself
  or as an element of an array. Whether it throws is decided where the source evaluates
  it; the string is computed where the \<^verbatim>\<open>search\<close> object is first used, behind the
  bind, where the username is a string.
\<close>

fun template_throws :: "jsval \<Rightarrow> bool" where
  "template_throws (JObj kvs) = (map_of kvs ''toString'' \<noteq> None)"
| "template_throws (JArr xs) =
     list_ex (\<lambda>x. x \<noteq> JUndefined \<and> x \<noteq> JNull \<and> template_throws x) xs"
| "template_throws v = False"

definition login_search :: "config \<Rightarrow> string \<Rightarrow> jsval \<Rightarrow> jsval \<Rightarrow> jsval res" where
  "login_search cfg usernameType searchUser customSearch =
     res_bind (js_template searchUser) (\<lambda>u.
       Ok (JObj (spread_entries customSearch
                 @ [(''filter'', JStr (''('' @ usernameType @ ''='' @ u @ '')''))]
                 @ spread_entries (searchOptions cfg))))"

definition loginUser ::
  "config \<Rightarrow> directory \<Rightarrow> jsval \<Rightarrow> jsval \<Rightarrow> jsval \<Rightarrow> jsval \<Rightarrow> jsval res \<times> call list" where
  "loginUser cfg dir username password customBase customSearch =
     try_catch
       (io_bind (createClient dir (ldapjsSettings cfg)) (\<lambda>client.
        io_bind (io_pure (detectLogonType username)) (\<lambda>usernameType.
        io_bind (io_pure (if usernameType = ''sAMAccountName''
                          then cleanSama username else Ok username)) (\<lambda>searchUser.
        io_bind (io_pure (if template_throws searchUser then Throw TypeError
                          else Ok ())) (\<lambda>filter.
        io_bind (io_emit OnError) (\<lambda>registered.
        io_bind (priv_bind dir username password) (\<lambda>bound.
        io_bind (io_pure (login_search cfg usernameType searchUser customSearch)) (\<lambda>search.
        io_bind (priv_search cfg dir customBase search) (\<lambda>records.
        io_pure (res_bind (js_index (JArr records) 0) (\<lambda>entry.
          Ok (JObj [(''success'', JBool True), (''entry'', entry)]))))))))))))
       (\<lambda>err. io_pure (failure err))
       []"

text \<open>
  \<^verbatim>\<open>
  async getAllGroups(username, password, customBase, detailed) {
      try {
          // For backwards compatability until v2
          if(detailed === undefined && typeof customBase === 'boolean')
              detailed = customBase;
          const attributes = detailed ? ['name','dn','objectGUID','description','whenCreated','whenChanged'] : 'name';
          const client = ldap.createClient(this.ldapjsSettings);
          const customSearch = { ...this.searchOptions, filter: `(objectCategory=group)`, attributes };
          client.on('error', error => { client.unbind(); return {...}; });
          await this._bind(client, username, password);
          const records = await this._search(client, customBase, customSearch);
          function getDetails(records) {
              return records.map(entry => {
                  return {
                      name: entry.object.name,
                      dn: entry.object.dn,
                      guid: ActiveDirectory.resolveGUID(entry),
                      description: entry.object.description,
                      created: ActiveDirectory.convertToDate(entry.object.whenCreated),
                      changed: ActiveDirectory.convertToDate(entry.object.whenChanged)
                  }
              });
          }
          return { success: true,
                   groups: detailed ? getDetails(records) : records.map(entry => entry.object.name) }
      } catch (err) {
          return { success: false, message: ActiveDirectory.resolveBindError(err), error: err };
      }
  }
  \<close>
\<close>

definition object_field :: "jsval \<Rightarrow> string \<Rightarrow> jsval res" where
  "object_field entry k = res_bind (get_prop entry ''object'') (\<lambda>obj. get_prop obj k)"

definition getDetails :: "jsval list \<Rightarrow> jsval list res" where
  "getDetails records =
     res_map (\<lambda>entry.
       res_bind (object_field entry ''name'') (\<lambda>name.
       res_bind (object_field entry ''dn'') (\<lambda>dn.
       res_bind (resolveGUID entry) (\<lambda>guid.
       res_bind (object_field entry ''description'') (\<lambda>description.
       res_bind (res_bind (object_field entry ''whenCreated'') convertToDate) (\<lambda>created.
       res_bind (res_bind (object_field entry ''whenChanged'') convertToDate) (\<lambda>changed.
         Ok (JObj [(''name'', name), (''dn'', dn), (''guid'', guid),
                   (''description'', description), (''created'', created),
                   (''changed'', changed)])))))))) records"

definition detailed_flag :: "jsval \<Rightarrow> jsval \<Rightarrow> jsval" where
  "detailed_flag customBase detailed =
     (if detailed = JUndefined \<and> js_typeof customBase = ''boolean'' then customBase else detailed)"

definition groups_search :: "config \<Rightarrow> jsval \<Rightarrow> jsval" where
  "groups_search cfg detailed =
     JObj ([(''attributes'',
             if js_truthy detailed
             then JArr (map JStr [''name'', ''dn'', ''objectGUID'', ''description'',
                                  ''whenCreated'', ''whenChanged''])
             else JStr ''name''),
            (''filter'', JStr ''(objectCategory=group)'')]
           @ spread_entries (searchOptions cfg))"

definition getAllGroups ::
  "config \<Rightarrow> directory \<Rightarrow> jsval \<Rightarrow> jsval \<Rightarrow> jsval \<Rightarrow> jsval \<Rightarrow> jsval res \<times> call list" where
  "getAllGroups cfg dir username password customBase detailed0 =
     try_catch
       (let detailed = detailed_flag customBase detailed0 in
        io_bind (createClient dir (ldapjsSettings cfg)) (\<lambda>client.
        io_bind (io_emit OnError) (\<lambda>registered.
        io_bind (priv_bind dir username password) (\<lambda>bound.
        io_bind (priv_search cfg dir customBase (groups_search cfg detailed)) (\<lambda>records.
        io_pure (res_bind (if js_truthy detailed then getDetails records
                           else res_map (\<lambda>entry. object_field entry ''name'') records) (\<lambda>groups.
          Ok (JObj [(''success'', JBool True), (''groups'', JArr groups)]))))))))
       (\<lambda>err. io_pure (failure err))
       []"

text \<open>
  \<^verbatim>\<open>
  async getAllUsers(username, password, customBase, formatted) {
      try {
          // For backwards compatability until v2
          if(formatted === undefined && typeof customBase === 'boolean')
              formatted = customBase;
          const client = ldap.createClient(this.ldapjsSettings);
          const customSearch = { ...this.searchOptions, filter: `(&(objectClass=user)(objectCategory=person))` };
          client.on('error', error => { client.unbind(); return {...}; });
          await this._bind(client, username, password);
          let records = await this._search(client, customBase, customSearch);
          if(formatted)
              records = records.map(entry => ActiveDirectory.createUserObj(entry));
          return { success: true, users: records };
      } catch (err) {
          return { success: false, message: ActiveDirectory.resolveBindError(err), error: err };
      }
  }
  \<close>
\<close>

definition users_search :: "config \<Rightarrow> jsval" where
  "users_search cfg =
     JObj ([(''filter'', JStr ''(&(objectClass=user)(objectCategory=person))'')]
           @ spread_entries (searchOptions cfg))"

definition getAllUsers ::
  "config \<Rightarrow> directory \<Rightarrow> jsval \<Rightarrow> jsval \<Rightarrow> jsval \<Rightarrow> jsval \<Rightarrow> jsval res \<times> call list" where
  "getAllUsers cfg dir username password customBase formatted0 =
     try_catch
       (let formatted = detailed_flag customBase formatted0 in
        io_bind (createClient dir (ldapjsSettings cfg)) (\<lambda>client.
        io_bind (io_emit OnError) (\<lambda>registered.
        io_bind (priv_bind dir username password) (\<lambda>bound.
        io_bind (priv_search cfg dir customBase (users_search cfg)) (\<lambda>records.
        io_pure (res_bind (if js_truthy formatted then res_map createUserObj records
                           else Ok records) (\<lambda>users.
          Ok (JObj [(''success'', JBool True), (''users'', JArr users)]))))))))
       (\<lambda>err. io_pure (failure err))
       []"

section \<open>The specification's vocabulary\<close>

text \<open>A string contains another when the other occurs in it as a run of consecutive
  characters.\<close>

fun contains :: "'a list \<Rightarrow> 'a list \<Rightarrow> bool" where
  "contains [] sub = (sub = [])"
| "contains (c # cs) sub = (take (length sub) (c # cs) = sub \<or> contains cs sub)"




text \<open>A result is a failure when it is an object whose \<^verbatim>\<open>success\<close> is
  \<^verbatim>\<open>false\<close> and which carries a message string and an error; the calls that reach
  the directory are the bind and the search.\<close>

definition is_failure :: "jsval res \<Rightarrow> bool" where
  "is_failure r =
     (case r of
        Ok (JObj kvs) \<Rightarrow>
          map_of kvs ''success'' = Some (JBool False)
          \<and> (case map_of kvs ''message'' of Some (JStr m) \<Rightarrow> True | _ \<Rightarrow> False)
          \<and> map_of kvs ''error'' \<noteq> None
      | _ \<Rightarrow> False)"

fun network_call :: "call \<Rightarrow> bool" where
  "network_call (Bind u p) = True"
| "network_call (Search b s) = True"
| "network_call c = False"

subsection \<open>Example inputs\<close>

definition cfg_example :: config where
  "cfg_example =
     \<lparr> base = JStr ''dc=domain,dc=local'',
       searchOptions = JObj [(''scope'', JStr ''sub''), (''sizeLimit'', JNum 10)],
       ldapjsSettings = JObj [(''url'', JStr ''ldap://domain.local'')] \<rparr>"

text \<open>A directory whose client is created for every settings object, that accepts every
  bind, answers every search with the given records and whose client emits no
  \<^verbatim>\<open>'error'\<close> event.\<close>

definition dir_accepting :: "jsval list \<Rightarrow> directory" where
  "dir_accepting records =
     \<lparr> create_reply = (\<lambda>settings. Created), client_errors = [], bind_err = (\<lambda>u p. JNull),
       search_reply = (\<lambda>b s. SearchStream records End) \<rparr>"

definition record_example :: jsval where
  "record_example =
     JObj [(''objectName'', JStr ''CN=Test User,OU=Test,DC=domain,DC=local''),
           (''object'', JObj [(''name'', JStr ''Test User'')])]"

definition override_example :: jsval where
  "override_example = JObj [(''filter'', JStr ''(cn=x)''), (''scope'', JStr ''base'')]"

text \<open>The text of a string before the first occurrence of a separator (the whole string
  when there is none) and the text behind that occurrence.\<close>

fun before_first :: "string \<Rightarrow> string \<Rightarrow> string" where
  "before_first sep [] = []"
| "before_first sep (c # cs) =
     (if take (length sep) (c # cs) = sep then [] else c # before_first sep cs)"

fun after_first :: "string \<Rightarrow> string \<Rightarrow> string" where
  "after_first sep [] = []"
| "after_first sep (c # cs) =
     (if take (length sep) (c # cs) = sep then drop (length sep) (c # cs)
      else after_first sep cs)"

text \<open>The name a component yields: the text between its first \<^verbatim>\<open>CN=\<close> and its
  next one (or its end), \<^verbatim>\<open>undefined\<close> without a \<^verbatim>\<open>CN=\<close>. The policy of
  \<^verbatim>\<open>resolveGroups\<close> on the three shapes of \<^verbatim>\<open>memberOf\<close>.\<close>

definition group_name :: "string \<Rightarrow> jsval" where
  "group_name c =
     (if contains c ''CN='' then JStr (before_first ''CN='' (after_first ''CN='' c))
      else JUndefined)"

fun element_group :: "jsval \<Rightarrow> jsval" where
  "element_group (JStr g) = group_name (before_first '','' g)"
| "element_group v = JUndefined"

fun groups_policy :: "jsval \<Rightarrow> jsval list" where
  "groups_policy (JStr s) = map group_name (filter (\<lambda>c. contains c ''CN='') (js_split s '',''))"
| "groups_policy (JArr gs) = map element_group gs"
| "groups_policy v = []"

text \<open>The string branch as the specification words it: split on commas, keep the
  components containing \<^verbatim>\<open>CN=\<close>, strip the \<^verbatim>\<open>CN=\<close> prefix from each.\<close>

definition strip_CN_prefix :: "string \<Rightarrow> string" where
  "strip_CN_prefix c = (if take 3 c = ''CN='' then drop 3 c else c)"

definition spec_groups_of_string :: "string \<Rightarrow> jsval list" where
  "spec_groups_of_string s =
     map (\<lambda>c. JStr (strip_CN_prefix c)) (filter (\<lambda>c. contains c ''CN='') (js_split s '',''))"

definition member_entry :: "jsval \<Rightarrow> jsval" where
  "member_entry memberOf = JObj [(''object'', JObj [(''memberOf'', memberOf)])]"

definition two_groups :: "string list" where
  "two_groups = [''CN=Group1,OU=Test,DC=domain,DC=com'', ''OU=Test,CN=Group2,DC=domain,DC=com'']"

text \<open>The identifier as the specification words it: five groups of bytes, taken in
  the orders 3 2 1 0, 5 4, 7 6, 8 9 and 10 to 15, each byte as two hexadecimal digits, the
  groups joined with a hyphen.\<close>

definition hex2 :: "8 word \<Rightarrow> string" where
  "hex2 b = [digit_char (unat b div 16), digit_char (unat b mod 16)]"

definition hex_group :: "8 word list \<Rightarrow> nat list \<Rightarrow> string" where
  "hex_group bs perm = concat (map (\<lambda>i. hex2 (bs ! i)) perm)"

definition spec_guid :: "8 word list \<Rightarrow> string" where
  "spec_guid bs =
     hex_group bs [3, 2, 1, 0] @ ''-'' @ hex_group bs [5, 4] @ ''-'' @ hex_group bs [7, 6] @ ''-'' @
     hex_group bs [8, 9] @ ''-'' @ hex_group bs [10, 11, 12, 13, 14, 15]"

text \<open>An attribute as ldapjs delivers it is an object whose \<^verbatim>\<open>buffers\<close> is an
  array that starts with a buffer; the raw identifier of a record is the first buffer of
  its first attribute of type \<^verbatim>\<open>objectGUID\<close>.\<close>

fun attribute_shaped :: "jsval \<Rightarrow> bool" where
  "attribute_shaped (JObj kvs) =
     (case map_of kvs ''buffers'' of Some (JArr (JBuf bs # rest)) \<Rightarrow> True | _ \<Rightarrow> False)"
| "attribute_shaped v = False"

definition objectGUID_bytes :: "jsval list \<Rightarrow> 8 word list option" where
  "objectGUID_bytes attrs =
     (case find (\<lambda>a. get_prop a ''type'' = Ok (JStr ''objectGUID'')) attrs of
        Some (JObj kvs) \<Rightarrow>
          (case map_of kvs ''buffers'' of Some (JArr (JBuf bs # rest)) \<Rightarrow> Some bs | _ \<Rightarrow> None)
      | _ \<Rightarrow> None)"

definition guid_entry :: "8 word list \<Rightarrow> jsval" where
  "guid_entry bs =
     JObj [(''attributes'',
            JArr [JObj [(''type'', JStr ''objectGUID''), (''buffers'', JArr [JBuf bs])]])]"

definition reference_bytes :: "8 word list" where
  "reference_bytes = [0x10, 0xE7, 0xD4, 0x17, 0x4D, 0x62, 0x78, 0x49,
                      0x90, 0x0B, 0x85, 0x49, 0xCB, 0x75, 0x36, 0x99]"

text \<open>The formatting half of \<^verbatim>\<open>resolveGUID\<close>, from \<^verbatim>\<open>guidFormat.map\<close> on.\<close>

definition format_guid :: "jsval \<Rightarrow> jsval res" where
  "format_guid binaryGUID =
           res_bind (res_map (\<lambda>part.
                       res_bind (res_map (byteString binaryGUID) part) (\<lambda>stringPart.
                         Ok (js_join [] stringPart)))
                     guidFormat) (\<lambda>guidArray.
             Ok (JStr (js_join ''-'' guidArray)))"

text \<open>A user record as the library's tests build it, the object \<^verbatim>\<open>createUserObj\<close>
  makes of it, a group record with the attributes of the detailed mode, and its detailed
  form.\<close>

definition user_example :: jsval where
  "user_example =
     JObj [(''objectName'', JStr ''CN=Test User,OU=Test,DC=domain,DC=com''),
           (''object'',
            JObj [(''memberOf'', JArr [JStr ''CN=Group1,OU=Test,DC=domain,DC=com'',
                                       JStr ''CN=Group2,OU=Test,OU=Test2,DC=domain,DC=com'']),
                  (''mail'', JStr ''test@domain.com''),
                  (''telephoneNumber'', JStr ''+1 12312312324''),
                  (''name'', JStr ''Test User'')]),
           (''attributes'',
            JArr [JObj [(''type'', JStr ''objectGUID''),
                        (''buffers'', JArr [JBuf reference_bytes])]])]"

definition user_formatted :: jsval where
  "user_formatted =
     JObj [(''groups'', JArr [JStr ''Group1'', JStr ''Group2'']),
           (''phone'', JStr ''+1 12312312324''),
           (''name'', JStr ''Test User''),
           (''mail'', JStr ''test@domain.com''),
           (''guid'', JStr ''17d4e710-624d-4978-900b-8549cb753699''),
           (''dn'', JStr ''CN=Test User,OU=Test,DC=domain,DC=com'')]"

definition group_record_example :: jsval where
  "group_record_example =
     JObj [(''object'',
            JObj [(''name'', JStr ''Group1''),
                  (''dn'', JStr ''CN=Group1,OU=Test,DC=domain,DC=com''),
                  (''description'', JStr ''Test group''),
                  (''whenCreated'', JStr ''20190102030405.0Z''),
                  (''whenChanged'', JStr ''20190203040506.0Z'')]),
           (''attributes'',
            JArr [JObj [(''type'', JStr ''objectGUID''),
                        (''buffers'', JArr [JBuf reference_bytes])]])]"

definition group_detailed :: jsval where
  "group_detailed =
     JObj [(''name'', JStr ''Group1''),
           (''dn'', JStr ''CN=Group1,OU=Test,DC=domain,DC=com''),
           (''guid'', JStr ''17d4e710-624d-4978-900b-8549cb753699''),
           (''description'', JStr ''Test group''),
           (''created'', JDate ''2019-01-02T03:04:05.000Z''),
           (''changed'', JDate ''2019-02-03T04:05:06.000Z'')]"

section \<open>Searching\<close>

lemma contains_iff: "contains s sub \<longleftrightarrow> (\<exists>pre post. s = pre @ sub @ post)"
proof (induction s)
  case Nil
  then show ?case by auto
next
  case (Cons c cs)
  show ?case
  proof
    assume "contains (c # cs) sub"
    then consider "take (length sub) (c # cs) = sub" | "contains cs sub" by auto
    then show "\<exists>pre post. c # cs = pre @ sub @ post"
    proof cases
      case 1
      then have "c # cs = [] @ sub @ drop (length sub) (c # cs)"
        by (metis append_Nil append_take_drop_id)
      then show ?thesis by blast
    next
      case 2
      then obtain pre post where "cs = pre @ sub @ post" using Cons.IH by blast
      then have "c # cs = (c # pre) @ sub @ post" by simp
      then show ?thesis by blast
    qed
  next
    assume "\<exists>pre post. c # cs = pre @ sub @ post"
    then obtain pre post where e: "c # cs = pre @ sub @ post" by blast
    show "contains (c # cs) sub"
    proof (cases pre)
      case Nil
      then have "take (length sub) (c # cs) = sub" using e by simp
      then show ?thesis by simp
    next
      case (Cons p ps)
      then have "cs = ps @ sub @ post" using e by simp
      then have "contains cs sub" using Cons.IH by blast
      then show ?thesis by simp
    qed
  qed
qed

lemma index_from_contains: "index_from sub s i \<noteq> - 1 \<longleftrightarrow> contains s sub"
  by (induction s arbitrary: i) auto

lemma indexOf_contains: "indexOf s sub \<noteq> - 1 \<longleftrightarrow> contains s sub"
  by (simp add: indexOf_def index_from_contains)

section \<open>The error classifier\<close>




section \<open>The operations\<close>

lemmas op_defs = try_catch_def io_bind_def io_emit_def io_pure_def createClient_def Let_def

lemmas eval_defs = loginUser_def getAllGroups_def getAllUsers_def op_defs priv_bind_def
  priv_search_def login_search_def cfg_example_def dir_accepting_def detectLogonType_def
  res_bind_def indexOf_def cleanSama_def

lemma split_pieces_not_Nil: "split_pieces sep s \<noteq> []"
  by (induction sep s rule: split_pieces.induct) (auto split: list.splits)

lemma js_split_not_Nil: "sep \<noteq> [] \<Longrightarrow> js_split s sep \<noteq> []"
  by (simp add: js_split_def split_pieces_not_Nil)

lemma detectLogonType_string:
  "detectLogonType (JStr u) = Ok ''userPrincipalName'' \<or>
   detectLogonType (JStr u) = Ok ''distinguishedName'' \<or>
   detectLogonType (JStr u) = Ok ''sAMAccountName''"
  by (simp add: detectLogonType_def res_bind_def)

lemma detectLogonType_cases:
  "detectLogonType v = Throw TypeError \<or> detectLogonType v = Ok ''userPrincipalName'' \<or>
   (\<exists>u. v = JStr u)"
  by (cases v) (auto simp: detectLogonType_def res_bind_def)

lemma cleanSama_string: "\<exists>s. cleanSama (JStr u) = Ok (JStr s)"
proof -
  have "js_split u [CHR 0x5C] \<noteq> []" by (rule js_split_not_Nil) simp
  then show ?thesis by (simp add: cleanSama_def res_bind_def str_at_def)
qed

lemma searchUser_string:
  "\<exists>s. (if t = ''sAMAccountName'' then cleanSama (JStr u) else Ok (JStr u)) = Ok (JStr s)"
  using cleanSama_string by simp

lemma resolveBindError_credentials_error:
  "resolveBindError credentials_error = Ok ''Invalid username or password''"
  by (simp add: credentials_error_def resolveBindError_def res_bind_def indexOf_def)

lemma resolveBindError_TypeError: "resolveBindError TypeError = Ok ''Unknown Auth Error''"
  by (simp add: TypeError_def resolveBindError_def res_bind_def)

lemma failure_credentials:
  "failure credentials_error = Ok (JObj [(''success'', JBool False),
     (''message'', JStr ''Invalid username or password''), (''error'', credentials_error)])"
  by (simp add: failure_def resolveBindError_credentials_error res_bind_def)

lemma failure_TypeError:
  "failure TypeError = Ok (JObj [(''success'', JBool False),
     (''message'', JStr ''Unknown Auth Error''), (''error'', TypeError)])"
  by (simp add: failure_def resolveBindError_TypeError res_bind_def)

lemma failure_create_error:
  "failure (JObj [(''name'', JStr n), (''message'', JStr m)])
     = Ok (JObj [(''success'', JBool False), (''message'', JStr ''Unknown Auth Error''),
                 (''error'', JObj [(''name'', JStr n), (''message'', JStr m)])])"
  by (simp add: failure_def resolveBindError_def res_bind_def)

lemma createClient_cases:
  "createClient dir settings tr = (Ok (), tr @ [CreateClient settings])
   \<or> (\<exists>n m. createClient dir settings tr
               = (Throw (JObj [(''name'', JStr n), (''message'', JStr m)]),
                  tr @ [CreateClient settings]))"
  by (cases "create_reply dir settings") (simp_all add: createClient_def)

lemmas run_defs = try_catch_def io_bind_def io_emit_def io_pure_def Let_def

lemma priv_bind_non_string:
  "js_typeof username \<noteq> ''string'' \<or> js_typeof password \<noteq> ''string'' \<Longrightarrow>
   priv_bind dir username password tr = (Throw credentials_error, tr)"
  by (cases username; cases password) (auto simp: priv_bind_def)

subsection \<open>The calls an operation makes\<close>

lemma loginUser_calls:
  "c \<in> set (snd (loginUser cfg dir username password customBase customSearch)) \<Longrightarrow>
   c = CreateClient (ldapjsSettings cfg) \<or> c = OnError \<or> (\<exists>u p. c = Bind u p)
   \<or> (c = Unbind \<and> client_errors dir \<noteq> [])
   \<or> (\<exists>u t su search. username = JStr u \<and> detectLogonType username = Ok t
         \<and> (if t = ''sAMAccountName'' then cleanSama username else Ok username) = Ok su
         \<and> login_search cfg t su customSearch = Ok search
         \<and> c = Search (if js_typeof customBase = ''string'' \<and> js_truthy customBase
                  then customBase else base cfg) search)"
  by (auto simp: loginUser_def op_defs priv_bind_def priv_search_def
      split: res.splits jsval.splits prod.splits if_splits)

lemma getAllGroups_calls:
  "c \<in> set (snd (getAllGroups cfg dir username password customBase detailed)) \<Longrightarrow>
   c = CreateClient (ldapjsSettings cfg) \<or> c = OnError \<or> (\<exists>u p. c = Bind u p)
   \<or> (c = Unbind \<and> client_errors dir \<noteq> [])
   \<or> c = Search (if js_typeof customBase = ''string'' \<and> js_truthy customBase
                  then customBase else base cfg)
                 (groups_search cfg (detailed_flag customBase detailed))"
  by (auto simp: getAllGroups_def op_defs priv_bind_def priv_search_def
      split: res.splits jsval.splits prod.splits if_splits)

lemma getAllUsers_calls:
  "c \<in> set (snd (getAllUsers cfg dir username password customBase formatted)) \<Longrightarrow>
   c = CreateClient (ldapjsSettings cfg) \<or> c = OnError \<or> (\<exists>u p. c = Bind u p)
   \<or> (c = Unbind \<and> client_errors dir \<noteq> [])
   \<or> c = Search (if js_typeof customBase = ''string'' \<and> js_truthy customBase
                  then customBase else base cfg)
                 (users_search cfg)"
  by (auto simp: getAllUsers_def op_defs priv_bind_def priv_search_def
      split: res.splits jsval.splits prod.splits if_splits)

text \<open>When \<^verbatim>\<open>ldap.createClient\<close> throws, the operation has made no other call and
  returns the failure result of an unknown error.\<close>

lemma loginUser_client_not_created:
  assumes "create_reply dir (ldapjsSettings cfg) = CreateThrows n m"
  shows "loginUser cfg dir username password customBase customSearch
           = (Ok (JObj [(''success'', JBool False), (''message'', JStr ''Unknown Auth Error''),
                        (''error'', JObj [(''name'', JStr n), (''message'', JStr m)])]),
              [CreateClient (ldapjsSettings cfg)])"
  using assms
  by (simp add: loginUser_def run_defs createClient_def failure_create_error)

subsection \<open>Release of the connection\<close>

text \<open>
  C1 asks that every operation releases its connection exactly once on every outcome.
  The only \<^verbatim>\<open>client.unbind()\<close> of the three operations stands in the handler of the
  client's \<^verbatim>\<open>'error'\<close> event: whenever the client emits no such event (a successful
  login, rejected credentials, a search that ends or fails) no operation ever unbinds,
  and the connection stays open.
\<close>

theorem connection_left_open:
  assumes "client_errors dir = []"
  shows "Unbind \<notin> set (snd (loginUser cfg dir username password customBase customSearch))
       \<and> Unbind \<notin> set (snd (getAllGroups cfg dir username password customBase detailed))
       \<and> Unbind \<notin> set (snd (getAllUsers cfg dir username password customBase formatted))"
  using assms loginUser_calls [of Unbind cfg dir username password customBase customSearch]
    getAllGroups_calls [of Unbind cfg dir username password customBase detailed]
    getAllUsers_calls [of Unbind cfg dir username password customBase formatted]
  by auto

theorem connection_left_open_witness:
  "client_errors (dir_accepting [record_example]) = []
   \<and> loginUser cfg_example (dir_accepting [record_example]) (JStr ''test@domain.local'')
        (JStr ''password'') JUndefined JUndefined
       = (Ok (JObj [(''success'', JBool True), (''entry'', record_example)]),
          [CreateClient (JObj [(''url'', JStr ''ldap://domain.local'')]), OnError,
           Bind ''test@domain.local'' ''password'',
           Search (JStr ''dc=domain,dc=local'')
             (JObj [(''filter'', JStr ''(userPrincipalName=test@domain.local)''),
                    (''scope'', JStr ''sub''), (''sizeLimit'', JNum 10)])])
   \<and> Unbind \<notin> set (snd (loginUser cfg_example (dir_accepting [record_example])
        (JStr ''test@domain.local'') (JStr ''password'') JUndefined JUndefined))"
proof -
  have a: "client_errors (dir_accepting [record_example]) = []"
    by (simp add: dir_accepting_def)
  have b: "loginUser cfg_example (dir_accepting [record_example]) (JStr ''test@domain.local'')
        (JStr ''password'') JUndefined JUndefined
       = (Ok (JObj [(''success'', JBool True), (''entry'', record_example)]),
          [CreateClient (JObj [(''url'', JStr ''ldap://domain.local'')]), OnError,
           Bind ''test@domain.local'' ''password'',
           Search (JStr ''dc=domain,dc=local'')
             (JObj [(''filter'', JStr ''(userPrincipalName=test@domain.local)''),
                    (''scope'', JStr ''sub''), (''sizeLimit'', JNum 10)])])"
    by (simp add: eval_defs)
  show ?thesis
    using a b connection_left_open [OF a, of cfg_example "JStr ''test@domain.local''"
        "JStr ''password''" JUndefined JUndefined]
    by blast
qed

subsection \<open>A search without a matching record\<close>

text \<open>
  C2, as the claim words it, fails: a login whose bind succeeds and whose search ends
  without a record resolves with \<^verbatim>\<open>success: true\<close> and an undefined entry, not with
  the failure shape.
\<close>

theorem loginUser_zero_records:
  "loginUser cfg_example (dir_accepting []) (JStr ''test@domain.local'') (JStr ''password'')
       JUndefined JUndefined
     = (Ok (JObj [(''success'', JBool True), (''entry'', JUndefined)]),
        [CreateClient (JObj [(''url'', JStr ''ldap://domain.local'')]), OnError,
         Bind ''test@domain.local'' ''password'',
         Search (JStr ''dc=domain,dc=local'')
           (JObj [(''filter'', JStr ''(userPrincipalName=test@domain.local)''),
                  (''scope'', JStr ''sub''), (''sizeLimit'', JNum 10)])])"
  by (simp add: eval_defs)

text \<open>
  C2, amended: for every login with a string username and password for which the client
  is created, the bind succeeds and the search ends with zero records, the operation
  returns, without raising, the object \<^verbatim>\<open>{ success: true, entry: undefined }\<close>.
\<close>

theorem loginUser_no_record:
  assumes "create_reply dir (ldapjsSettings cfg) = Created"
    and "\<not> js_truthy (bind_err dir u p)"
    and "\<forall>b s. search_reply dir b s = SearchStream [] End"
  shows "fst (loginUser cfg dir (JStr u) (JStr p) customBase customSearch)
           = Ok (JObj [(''success'', JBool True), (''entry'', JUndefined)])"
proof -
  obtain t where t: "detectLogonType (JStr u) = Ok t"
    using detectLogonType_string by blast
  obtain su where su:
    "(if t = ''sAMAccountName'' then cleanSama (JStr u) else Ok (JStr u)) = Ok (JStr su)"
    using searchUser_string by blast
  show ?thesis
    using assms t su
    by (simp add: loginUser_def run_defs createClient_def priv_bind_def priv_search_def
        login_search_def res_bind_def)
qed

theorem loginUser_no_record_witness:
  "create_reply (dir_accepting []) (ldapjsSettings cfg_example) = Created
   \<and> \<not> js_truthy (bind_err (dir_accepting []) ''test@domain.local'' ''password'')
   \<and> (\<forall>b s. search_reply (dir_accepting []) b s = SearchStream [] End)
   \<and> fst (loginUser cfg_example (dir_accepting []) (JStr ''test@domain.local'')
             (JStr ''password'') JUndefined JUndefined)
       = Ok (JObj [(''success'', JBool True), (''entry'', JUndefined)])"
proof -
  have c: "create_reply (dir_accepting []) (ldapjsSettings cfg_example) = Created"
    by (simp add: dir_accepting_def)
  have a: "\<not> js_truthy (bind_err (dir_accepting []) ''test@domain.local'' ''password'')"
    by (simp add: dir_accepting_def)
  have b: "\<forall>b s. search_reply (dir_accepting []) b s = SearchStream [] End"
    by (simp add: dir_accepting_def)
  show ?thesis
    using c a b loginUser_no_record [OF c a b, of JUndefined JUndefined] by simp
qed

subsection \<open>The search options of a login\<close>

text \<open>
  C5, as the claim words it, fails: the override is spread last into the search object,
  so a scope in the override replaces the configured scope.
\<close>

theorem loginUser_override_scope:
  "snd (loginUser cfg_example (dir_accepting []) (JStr ''test@domain.local'') (JStr ''password'')
          JUndefined override_example)
     = [CreateClient (JObj [(''url'', JStr ''ldap://domain.local'')]), OnError,
        Bind ''test@domain.local'' ''password'',
        Search (JStr ''dc=domain,dc=local'')
          (JObj [(''filter'', JStr ''(cn=x)''), (''scope'', JStr ''base''),
                 (''filter'', JStr ''(userPrincipalName=test@domain.local)''),
                 (''scope'', JStr ''sub''), (''sizeLimit'', JNum 10)])]
   \<and> get_prop (JObj [(''filter'', JStr ''(cn=x)''), (''scope'', JStr ''base''),
                 (''filter'', JStr ''(userPrincipalName=test@domain.local)''),
                 (''scope'', JStr ''sub''), (''sizeLimit'', JNum 10)]) ''scope''
       = Ok (JStr ''base'')
   \<and> get_prop (searchOptions cfg_example) ''scope'' = Ok (JStr ''sub'')"
  by (simp add: eval_defs override_example_def)

text \<open>
  C5, amended: in the search a login issues with an override object, every property the
  override names has the override's value (its filter replaces the default filter, and
  its scope or size limit, if it names one, replaces the configured one); every other
  option than the filter comes from the configured search options; and without a filter
  in the override the filter is the default one, the logon attribute matched to the
  (cleaned) username.
\<close>

theorem loginUser_search_options:
  assumes "Search b search
             \<in> set (snd (loginUser cfg dir username password customBase (JObj override)))"
    and "searchOptions cfg = JObj options"
  shows "(\<forall>v. map_of override k = Some v \<longrightarrow> get_prop search k = Ok v)
       \<and> (map_of override k = None \<longrightarrow> k \<noteq> ''filter'' \<longrightarrow>
            get_prop search k = get_prop (searchOptions cfg) k)
       \<and> (map_of override ''filter'' = None \<longrightarrow>
            (\<exists>t su. detectLogonType username = Ok t
               \<and> (if t = ''sAMAccountName'' then cleanSama username else Ok username)
                   = Ok (JStr su)
               \<and> get_prop search ''filter'' = Ok (JStr (''('' @ t @ ''='' @ su @ '')''))))"
proof -
  from loginUser_calls [OF assms(1)]
  obtain u t su where u: "username = JStr u" and t: "detectLogonType username = Ok t"
    and su: "(if t = ''sAMAccountName'' then cleanSama username else Ok username) = Ok su"
    and s: "login_search cfg t su (JObj override) = Ok search"
    by blast
  obtain sus where sus: "su = JStr sus"
    using su u searchUser_string [of t u] by auto
  have search:
    "search = JObj (override @ [(''filter'', JStr (''('' @ t @ ''='' @ sus @ '')''))] @ options)"
    using s sus assms(2) by (simp add: login_search_def res_bind_def)
  show ?thesis
    using t su sus assms(2) unfolding search
    by (auto simp: map_add_def split: option.splits)
qed

theorem loginUser_search_options_witness:
  "Search (JStr ''dc=domain,dc=local'')
          (JObj [(''filter'', JStr ''(cn=x)''), (''scope'', JStr ''base''),
                 (''filter'', JStr ''(userPrincipalName=test@domain.local)''),
                 (''scope'', JStr ''sub''), (''sizeLimit'', JNum 10)])
     \<in> set (snd (loginUser cfg_example (dir_accepting []) (JStr ''test@domain.local'')
                   (JStr ''password'') JUndefined
                   (JObj [(''filter'', JStr ''(cn=x)''), (''scope'', JStr ''base'')])))
   \<and> searchOptions cfg_example = JObj [(''scope'', JStr ''sub''), (''sizeLimit'', JNum 10)]
   \<and> map_of [(''filter'', JStr ''(cn=x)''), (''scope'', JStr ''base'')] ''sizeLimit'' = None
   \<and> get_prop (JObj [(''filter'', JStr ''(cn=x)''), (''scope'', JStr ''base''),
                 (''filter'', JStr ''(userPrincipalName=test@domain.local)''),
                 (''scope'', JStr ''sub''), (''sizeLimit'', JNum 10)]) ''sizeLimit''
       = get_prop (searchOptions cfg_example) ''sizeLimit''"
proof -
  let ?search = "JObj [(''filter'', JStr ''(cn=x)''), (''scope'', JStr ''base''),
                 (''filter'', JStr ''(userPrincipalName=test@domain.local)''),
                 (''scope'', JStr ''sub''), (''sizeLimit'', JNum 10)]"
  let ?override = "[(''filter'', JStr ''(cn=x)''), (''scope'', JStr ''base'')]"
  have a: "Search (JStr ''dc=domain,dc=local'') ?search
     \<in> set (snd (loginUser cfg_example (dir_accepting []) (JStr ''test@domain.local'')
                   (JStr ''password'') JUndefined (JObj ?override)))"
    by (simp add: eval_defs)
  have b: "searchOptions cfg_example = JObj [(''scope'', JStr ''sub''), (''sizeLimit'', JNum 10)]"
    by (simp add: cfg_example_def)
  have c: "map_of ?override ''sizeLimit'' = None" by simp
  from loginUser_search_options [OF a b, of "''sizeLimit''"] c
  have "get_prop ?search ''sizeLimit'' = get_prop (searchOptions cfg_example) ''sizeLimit''"
    by simp
  with a b c show ?thesis by blast
qed

subsection \<open>Credentials that are not strings\<close>

lemma loginUser_non_string:
  assumes "js_typeof username \<noteq> ''string'' \<or> js_typeof password \<noteq> ''string''"
  shows "is_failure (fst (loginUser cfg dir username password customBase customSearch))
         \<and> \<not> list_ex network_call
               (snd (loginUser cfg dir username password customBase customSearch))"
proof -
  note defs = loginUser_def run_defs is_failure_def failure_TypeError failure_credentials
    failure_create_error
  from createClient_cases [of dir "ldapjsSettings cfg" "[]"] show ?thesis
  proof (elim disjE exE)
    assume c: "createClient dir (ldapjsSettings cfg) []
                 = (Ok (), [] @ [CreateClient (ldapjsSettings cfg)])"
    consider (thrown) "detectLogonType username = Throw TypeError"
      | (upn) "detectLogonType username = Ok ''userPrincipalName''"
      | (str) u where "username = JStr u"
      using detectLogonType_cases by blast
    then show ?thesis
    proof cases
      case thrown
      then show ?thesis by (simp add: defs c)
    next
      case upn
      then show ?thesis
        using priv_bind_non_string [OF assms] by (simp add: defs c)
    next
      case str
      obtain t where t: "detectLogonType (JStr u) = Ok t"
        using detectLogonType_string by blast
      obtain su where su:
        "(if t = ''sAMAccountName'' then cleanSama (JStr u) else Ok (JStr u)) = Ok (JStr su)"
        using searchUser_string by blast
      show ?thesis
        using str t su priv_bind_non_string [OF assms] by (simp add: defs c)
    qed
  next
    fix n m
    assume c: "createClient dir (ldapjsSettings cfg) []
                 = (Throw (JObj [(''name'', JStr n), (''message'', JStr m)]),
                    [] @ [CreateClient (ldapjsSettings cfg)])"
    show ?thesis by (simp add: defs c)
  qed
qed

lemma getAllGroups_non_string:
  assumes "js_typeof username \<noteq> ''string'' \<or> js_typeof password \<noteq> ''string''"
  shows "is_failure (fst (getAllGroups cfg dir username password customBase detailed))
         \<and> \<not> list_ex network_call
               (snd (getAllGroups cfg dir username password customBase detailed))"
  using priv_bind_non_string [OF assms] createClient_cases [of dir "ldapjsSettings cfg" "[]"]
  by (auto simp: getAllGroups_def run_defs failure_credentials failure_create_error
      is_failure_def)

lemma getAllUsers_non_string:
  assumes "js_typeof username \<noteq> ''string'' \<or> js_typeof password \<noteq> ''string''"
  shows "is_failure (fst (getAllUsers cfg dir username password customBase formatted))
         \<and> \<not> list_ex network_call
               (snd (getAllUsers cfg dir username password customBase formatted))"
  using priv_bind_non_string [OF assms] createClient_cases [of dir "ldapjsSettings cfg" "[]"]
  by (auto simp: getAllUsers_def run_defs failure_credentials failure_create_error
      is_failure_def)

text \<open>
  C6, as the claim words it, fails: a login with a password that is not a string does
  not raise. The error thrown by the bind helper is caught by the operation and comes
  back as a failure result, classified as invalid credentials; no bind is sent.
\<close>

theorem non_string_password_is_failure_result:
  "loginUser cfg_example (dir_accepting []) (JStr ''test@domain.local'') (JNum 5)
       JUndefined JUndefined
     = (Ok (JObj [(''success'', JBool False),
                  (''message'', JStr ''Invalid username or password''),
                  (''error'', credentials_error)]),
        [CreateClient (JObj [(''url'', JStr ''ldap://domain.local'')]), OnError])"
  by (simp add: loginUser_def op_defs failure_credentials priv_bind_def cfg_example_def
      dir_accepting_def detectLogonType_def res_bind_def indexOf_def)

text \<open>
  C6, amended: for every one of the three operations called with a username or a password
  that is not a string, no bind and no search is sent, and the operation returns a failure
  result (\<^verbatim>\<open>success: false\<close>, with a message and the error) instead of raising.
\<close>

theorem non_string_credentials_fail_fast:
  assumes "js_typeof username \<noteq> ''string'' \<or> js_typeof password \<noteq> ''string''"
  shows "is_failure (fst (loginUser cfg dir username password customBase customSearch))
       \<and> \<not> list_ex network_call
             (snd (loginUser cfg dir username password customBase customSearch))
       \<and> is_failure (fst (getAllGroups cfg dir username password customBase detailed))
       \<and> \<not> list_ex network_call
             (snd (getAllGroups cfg dir username password customBase detailed))
       \<and> is_failure (fst (getAllUsers cfg dir username password customBase formatted))
       \<and> \<not> list_ex network_call
             (snd (getAllUsers cfg dir username password customBase formatted))"
  using loginUser_non_string [OF assms] getAllGroups_non_string [OF assms]
    getAllUsers_non_string [OF assms]
  by blast

theorem non_string_credentials_fail_fast_witness:
  "js_typeof (JNum 5) \<noteq> ''string''
   \<and> is_failure (fst (loginUser cfg_example (dir_accepting []) (JNum 5) (JStr ''password'')
                          JUndefined JUndefined))
   \<and> \<not> list_ex network_call (snd (loginUser cfg_example (dir_accepting []) (JNum 5)
                          (JStr ''password'') JUndefined JUndefined))"
proof -
  have a: "js_typeof (JNum 5) \<noteq> ''string''" by simp
  then have b: "js_typeof (JNum 5) \<noteq> ''string'' \<or> js_typeof (JStr ''password'') \<noteq> ''string''"
    by blast
  show ?thesis
    using a non_string_credentials_fail_fast [OF b, of cfg_example "dir_accepting []"
        JUndefined JUndefined]
    by blast
qed

section \<open>The record decoder: groups\<close>

lemma res_map_Ok: "(\<And>x. x \<in> set xs \<Longrightarrow> f x = Ok (g x)) \<Longrightarrow> res_map f xs = Ok (map g xs)"
  by (induction xs) (simp_all add: res_bind_def)

lemma hd_split_pieces: "hd (split_pieces sep s) = before_first sep s"
proof (induction s)
  case Nil
  then show ?case by simp
next
  case (Cons c cs)
  then show ?case
    using split_pieces_not_Nil [of sep cs]
    by (cases "split_pieces sep cs") auto
qed

lemma tl_split_pieces:
  "sep \<noteq> [] \<Longrightarrow>
   tl (split_pieces sep s) = (if contains s sep then split_pieces sep (after_first sep s) else [])"
proof (induction s)
  case Nil
  then show ?case by simp
next
  case (Cons c cs)
  show ?case
  proof (cases "take (length sep) (c # cs) = sep")
    case True
    have "drop (length sep) (c # cs) = drop (length sep - 1) cs"
      using Cons.prems by (cases sep) auto
    with True show ?thesis by simp
  next
    case False
    obtain p ps where p: "split_pieces sep cs = p # ps"
      using split_pieces_not_Nil [of sep cs] by (cases "split_pieces sep cs") auto
    with False Cons show ?thesis by simp
  qed
qed

lemma second_piece:
  assumes "sep \<noteq> []"
  shows "str_at (split_pieces sep s) 1 =
           (if contains s sep then JStr (before_first sep (after_first sep s)) else JUndefined)"
proof -
  obtain p ps where p: "split_pieces sep s = p # ps"
    using split_pieces_not_Nil [of sep s] by (cases "split_pieces sep s") auto
  have ps: "ps = (if contains s sep then split_pieces sep (after_first sep s) else [])"
    using tl_split_pieces [OF assms, of s] p by simp
  show ?thesis
  proof (cases "contains s sep")
    case True
    obtain q qs where q: "split_pieces sep (after_first sep s) = q # qs"
      using split_pieces_not_Nil [of sep "after_first sep s"]
      by (cases "split_pieces sep (after_first sep s)") auto
    have "q = before_first sep (after_first sep s)"
      using hd_split_pieces [of sep "after_first sep s"] q by simp
    with True p ps q show ?thesis by (simp add: str_at_def)
  next
    case False
    with p ps show ?thesis by (simp add: str_at_def)
  qed
qed

lemma name_of_component: "str_at (js_split c ''CN='') (Suc 0) = group_name c"
  using second_piece [of "''CN=''" c] by (simp add: js_split_def group_name_def)

lemma first_piece: "sep \<noteq> [] \<Longrightarrow> str_at (js_split s sep) 0 = JStr (before_first sep s)"
  using split_pieces_not_Nil [of sep s] hd_split_pieces [of sep s]
  by (cases "split_pieces sep s") (auto simp: js_split_def str_at_def)

lemma group_of_element_string: "group_of_element (JStr g) = Ok (element_group (JStr g))"
  by (simp add: group_of_element_def res_bind_def first_piece name_of_component)

lemma group_of_elements:
  "list_all (\<lambda>g. js_typeof g = ''string'') gs \<Longrightarrow>
   res_map group_of_element gs = Ok (map element_group gs)"
proof (rule res_map_Ok)
  fix x assume "list_all (\<lambda>g. js_typeof g = ''string'') gs" "x \<in> set gs"
  then have "js_typeof x = ''string''" by (simp add: list_all_iff)
  then obtain g where "x = JStr g" by (cases x) auto
  then show "group_of_element x = Ok (element_group x)"
    using group_of_element_string by simp
qed

lemma before_first_absent: "\<not> contains s sep \<Longrightarrow> before_first sep s = s"
  by (induction s) auto

lemma group_name_prefix: "\<not> contains r ''CN='' \<Longrightarrow> group_name (''CN='' @ r) = JStr r"
  by (simp add: group_name_def before_first_absent)

lemma resolveGroups_object:
  assumes "get_prop entry ''object'' = Ok (JObj obj)"
    and "get_prop (JObj obj) ''memberOf'' = Ok memberOf"
    and "\<forall>gs. memberOf = JArr gs \<longrightarrow> list_all (\<lambda>g. js_typeof g = ''string'') gs"
  shows "resolveGroups entry = Ok (JArr (groups_policy memberOf))"
proof (cases memberOf)
  case (JStr s)
  with assms show ?thesis
    by (simp add: resolveGroups_def res_bind_def indexOf_contains name_of_component
        del: get_prop.simps)
next
  case (JArr gs)
  with assms show ?thesis
    by (simp add: resolveGroups_def res_bind_def group_of_elements del: get_prop.simps)
qed (use assms in \<open>simp_all add: resolveGroups_def res_bind_def del: get_prop.simps\<close>)

text \<open>
  C4, as the claim words it, fails. A component that holds \<^verbatim>\<open>CN=\<close> twice yields the
  text between the two, not the component without its prefix; and an array that holds
  something other than a string is not turned into an empty sequence: the call throws.
\<close>

theorem resolveGroups_second_CN:
  "resolveGroups (member_entry (JStr ''CN=ACN=B,OU=Test,DC=domain,DC=com'')) = Ok (JArr [JStr ''A''])
   \<and> spec_groups_of_string ''CN=ACN=B,OU=Test,DC=domain,DC=com'' = [JStr ''ACN=B'']
   \<and> resolveGroups (member_entry (JArr [JNum 5])) = Throw TypeError"
  by (simp add: resolveGroups_def member_entry_def res_bind_def js_split_def indexOf_def
      str_at_def spec_groups_of_string_def strip_CN_prefix_def group_of_element_def)

text \<open>
  C4, amended: for every record whose object field is a mapping and whose
  \<^verbatim>\<open>memberOf\<close>, if an array, holds only strings: absent gives the empty sequence; a
  single string is split on commas, only the components containing \<^verbatim>\<open>CN=\<close> are
  kept, and each yields the text between its first \<^verbatim>\<open>CN=\<close> and its next one (or
  its end), which is the component without its prefix when it starts with
  \<^verbatim>\<open>CN=\<close> and holds no other; a sequence of strings yields, for each element,
  that same text taken from the text before the element's first comma (undefined
  without a \<^verbatim>\<open>CN=\<close>); any other shape gives the empty sequence without error.
\<close>

theorem resolveGroups_policy:
  assumes "get_prop entry ''object'' = Ok (JObj obj)"
    and "get_prop (JObj obj) ''memberOf'' = Ok memberOf"
    and "\<forall>gs. memberOf = JArr gs \<longrightarrow> list_all (\<lambda>g. js_typeof g = ''string'') gs"
  shows "resolveGroups entry = Ok (JArr (groups_policy memberOf))
       \<and> (\<forall>r. \<not> contains r ''CN='' \<longrightarrow> group_name (''CN='' @ r) = JStr r)"
  using resolveGroups_object [OF assms] group_name_prefix by blast

theorem resolveGroups_policy_witness:
  "get_prop (member_entry (JStr ''CN=Group1,CN=Group2,DC=domain,DC=com'')) ''object''
     = Ok (JObj [(''memberOf'', JStr ''CN=Group1,CN=Group2,DC=domain,DC=com'')])
   \<and> get_prop (JObj [(''memberOf'', JStr ''CN=Group1,CN=Group2,DC=domain,DC=com'')]) ''memberOf''
     = Ok (JStr ''CN=Group1,CN=Group2,DC=domain,DC=com'')
   \<and> resolveGroups (member_entry (JStr ''CN=Group1,CN=Group2,DC=domain,DC=com''))
     = Ok (JArr [JStr ''Group1'', JStr ''Group2''])
   \<and> group_name ''CN=Group1'' = JStr ''Group1''"
proof -
  let ?m = "JStr ''CN=Group1,CN=Group2,DC=domain,DC=com''"
  have a: "get_prop (member_entry ?m) ''object'' = Ok (JObj [(''memberOf'', ?m)])"
    by (simp add: member_entry_def)
  have b: "get_prop (JObj [(''memberOf'', ?m)]) ''memberOf'' = Ok ?m" by simp
  have c: "\<forall>gs. ?m = JArr gs \<longrightarrow> list_all (\<lambda>g. js_typeof g = ''string'') gs" by simp
  have d: "\<not> contains ''Group1'' ''CN=''" by simp
  have p: "groups_policy ?m = [JStr ''Group1'', JStr ''Group2'']"
    by (simp add: js_split_def group_name_def)
  from resolveGroups_policy [OF a b c] p d
  have "resolveGroups (member_entry ?m) = Ok (JArr [JStr ''Group1'', JStr ''Group2''])
        \<and> group_name (''CN='' @ ''Group1'') = JStr ''Group1''"
    by metis
  with a b show ?thesis by simp
qed

text \<open>
  C10: for every record whose \<^verbatim>\<open>memberOf\<close> is an array of strings,
  \<^verbatim>\<open>resolveGroups\<close> returns (it does not throw) an array of the same length, and
  the position of an element whose text before the first comma contains no
  \<^verbatim>\<open>CN=\<close> holds \<^verbatim>\<open>undefined\<close>, every other position a string.
\<close>

theorem resolveGroups_array_length:
  assumes "get_prop entry ''object'' = Ok obj"
    and "get_prop obj ''memberOf'' = Ok (JArr (map JStr gs))"
  shows "\<exists>out. resolveGroups entry = Ok (JArr out) \<and> length out = length gs
           \<and> (\<forall>i < length gs.
                 if contains (before_first '','' (gs ! i)) ''CN=''
                 then (\<exists>name. out ! i = JStr name) else out ! i = JUndefined)"
proof -
  obtain kvs where obj: "obj = JObj kvs"
    using assms(2) by (cases obj) auto
  have strings: "list_all (\<lambda>g. js_typeof g = ''string'') (map JStr gs)"
    by (simp add: list_all_iff)
  have r: "resolveGroups entry = Ok (JArr (map element_group (map JStr gs)))"
    using assms obj by (simp add: resolveGroups_def res_bind_def group_of_elements [OF strings]
        del: get_prop.simps)
  have len: "length (map element_group (map JStr gs)) = length gs" by simp
  have elems: "\<forall>i < length gs.
          if contains (before_first '','' (gs ! i)) ''CN=''
          then (\<exists>name. map element_group (map JStr gs) ! i = JStr name)
          else map element_group (map JStr gs) ! i = JUndefined"
    by (simp add: group_name_def)
  from r len elems show ?thesis by blast
qed

theorem resolveGroups_array_length_witness:
  "get_prop (member_entry (JArr (map JStr two_groups))) ''object''
     = Ok (JObj [(''memberOf'', JArr (map JStr two_groups))])
   \<and> get_prop (JObj [(''memberOf'', JArr (map JStr two_groups))]) ''memberOf''
     = Ok (JArr (map JStr two_groups))
   \<and> resolveGroups (member_entry (JArr (map JStr two_groups)))
     = Ok (JArr [JStr ''Group1'', JUndefined])
   \<and> (\<exists>out. resolveGroups (member_entry (JArr (map JStr two_groups))) = Ok (JArr out)
          \<and> length out = length two_groups)"
proof -
  let ?e = "member_entry (JArr (map JStr two_groups))"
  have a: "get_prop ?e ''object'' = Ok (JObj [(''memberOf'', JArr (map JStr two_groups))])"
    by (simp add: member_entry_def)
  have b: "get_prop (JObj [(''memberOf'', JArr (map JStr two_groups))]) ''memberOf''
     = Ok (JArr (map JStr two_groups))" by simp
  have c: "resolveGroups ?e = Ok (JArr [JStr ''Group1'', JUndefined])"
    by (simp add: resolveGroups_def member_entry_def res_bind_def js_split_def
      str_at_def group_of_element_def two_groups_def)
  from resolveGroups_array_length [OF a b]
  have "\<exists>out. resolveGroups ?e = Ok (JArr out) \<and> length out = length two_groups"
    by blast
  with a b c show ?thesis by blast
qed

section \<open>The record decoder: identifier\<close>

declare hex_nat.simps [simp del]

lemma hex_nat_byte: "n < 256 \<Longrightarrow>
  (if n < 16 then ''0'' @ hex_nat n else hex_nat n) = [digit_char (n div 16), digit_char (n mod 16)]"
proof (cases "n < 16")
  case True
  then show ?thesis by (simp add: hex_nat.simps [of n] digit_char_def)
next
  case False
  assume "n < 256"
  then have "n div 16 < 16" by simp
  then have "hex_nat (n div 16) = [digit_char (n div 16)]"
    by (simp add: hex_nat.simps [of "n div 16"])
  with False show ?thesis by (simp add: hex_nat.simps [of n])
qed

lemma byteString_in_range:
  assumes "i < length bs"
  shows "byteString (JBuf bs) i = Ok (hex2 (bs ! i))"
proof -
  let ?b = "bs ! i"
  have lt: "unat ?b < 256" using unsigned_less [of ?b] by simp
  have "uint ?b = int (unat ?b)" by (rule uint_nat)
  then have c: "(uint ?b < 16) = (unat ?b < 16)" by presburger
  have t: "num_toString16 (uint ?b) = hex_nat (unat ?b)"
    by (simp add: num_toString16_def)
  have "byteString (JBuf bs) i
          = Ok (if uint ?b < 16 then ''0'' @ num_toString16 (uint ?b)
                else num_toString16 (uint ?b))"
    using assms by (simp add: byteString_def res_bind_def)
  also have "\<dots> = Ok (if unat ?b < 16 then ''0'' @ hex_nat (unat ?b) else hex_nat (unat ?b))"
    by (simp only: c t)
  also have "\<dots> = Ok (hex2 ?b)"
    by (simp only: hex_nat_byte [OF lt] hex2_def)
  finally show ?thesis .
qed

lemma byteString_out_of_range:
  "length bs \<le> i \<Longrightarrow> byteString (JBuf bs) i = Throw TypeError"
  by (simp add: byteString_def res_bind_def)

lemma res_map_Throw:
  assumes "\<And>x. x \<in> set xs \<Longrightarrow> f x = Throw e \<or> (\<exists>y. f x = Ok y)"
    and "\<exists>x \<in> set xs. f x = Throw e"
  shows "res_map f xs = Throw e"
  using assms
proof (induction xs)
  case Nil
  then show ?case by simp
next
  case (Cons x xs)
  show ?case
  proof (cases "f x = Throw e")
    case True
    then show ?thesis by (simp add: res_bind_def)
  next
    case False
    then obtain y where y: "f x = Ok y" using Cons.prems(1) [of x] by auto
    from False Cons.prems(2) have "\<exists>x \<in> set xs. f x = Throw e" by auto
    then have "res_map f xs = Throw e" using Cons.IH Cons.prems(1) by auto
    with y show ?thesis by (simp add: res_bind_def)
  qed
qed

lemma format_long:
  assumes "16 \<le> length bs"
  shows "format_guid (JBuf bs) = Ok (JStr (spec_guid bs))"
proof -
  have b: "\<And>i. i < 16 \<Longrightarrow> byteString (JBuf bs) i = Ok (hex2 (bs ! i))"
    using assms by (intro byteString_in_range) simp
  show ?thesis
    by (simp add: format_guid_def guidFormat_def b res_bind_def spec_guid_def hex_group_def)
qed

lemma byteString_buffer: "byteString (JBuf bs) i = Throw TypeError \<or> (\<exists>y. byteString (JBuf bs) i = Ok y)"
  using byteString_in_range [of i bs] byteString_out_of_range [of bs i]
  by (cases "i < length bs") auto

lemma part_buffer:
  "res_map (byteString (JBuf bs)) part = Throw TypeError \<or> (\<exists>y. res_map (byteString (JBuf bs)) part = Ok y)"
proof (induction part)
  case Nil
  then show ?case by simp
next
  case (Cons i part)
  then show ?case using byteString_buffer [of bs i] by (auto simp: res_bind_def)
qed

lemma format_short:
  assumes "length bs < 16"
  shows "format_guid (JBuf bs) = Throw TypeError"
proof -
  let ?f = "\<lambda>part. res_bind (res_map (byteString (JBuf bs)) part) (\<lambda>stringPart. Ok (js_join [] stringPart))"
  have each: "?f part = Throw TypeError \<or> (\<exists>y. ?f part = Ok y)" for part
    using part_buffer [of bs part] by (auto simp: res_bind_def)
  have "byteString (JBuf bs) 15 = Throw TypeError"
    using assms by (intro byteString_out_of_range) simp
  then have "res_map (byteString (JBuf bs)) [10, 11, 12, 13, 14, 15] = Throw TypeError"
    using byteString_buffer [of bs] by (intro res_map_Throw) auto
  then have last: "?f [10, 11, 12, 13, 14, 15] = Throw TypeError"
    by (simp add: res_bind_def)
  have "res_map ?f guidFormat = Throw TypeError"
  proof (rule res_map_Throw)
    show "\<And>x. x \<in> set guidFormat \<Longrightarrow> ?f x = Throw TypeError \<or> (\<exists>y. ?f x = Ok y)"
      using each by blast
    show "\<exists>x \<in> set guidFormat. ?f x = Throw TypeError"
      using last by (auto simp: guidFormat_def)
  qed
  then show ?thesis by (simp add: format_guid_def res_bind_def)
qed

lemma find_objectGUID_shaped:
  "list_all attribute_shaped attrs \<Longrightarrow>
   find_objectGUID attrs =
     Ok (case find (\<lambda>a. get_prop a ''type'' = Ok (JStr ''objectGUID'')) attrs of
           Some a \<Rightarrow> a | None \<Rightarrow> JUndefined)"
proof (induction attrs)
  case Nil
  then show ?case by simp
next
  case (Cons a attrs)
  then obtain kvs where "a = JObj kvs" by (cases a) auto
  with Cons show ?case by (auto simp: res_bind_def)
qed

lemma find_shaped:
  "list_all attribute_shaped attrs \<Longrightarrow> find P attrs = Some a \<Longrightarrow> attribute_shaped a"
  by (induction attrs) (auto split: if_splits)

lemma resolveGUID_format:
  "resolveGUID entry = 
     res_bind (get_prop entry ''attributes'') (\<lambda>attributes.
       case attributes of
         JArr attrs \<Rightarrow>
           res_bind (find_objectGUID attrs) (\<lambda>attribute.
           res_bind (get_prop attribute ''buffers'') (\<lambda>buffers.
           res_bind (js_index buffers 0) format_guid))
       | _ \<Rightarrow> Throw (new_Error ''Attributes must be an array''))"
  unfolding resolveGUID_def format_guid_def by (rule refl)

lemma resolveGUID_shaped:
  assumes "get_prop entry ''attributes'' = Ok (JArr attrs)"
    and "list_all attribute_shaped attrs"
  shows "resolveGUID entry =
           (case objectGUID_bytes attrs of
              None \<Rightarrow> Throw TypeError
            | Some bs \<Rightarrow> format_guid (JBuf bs))"
proof (cases "find (\<lambda>a. get_prop a ''type'' = Ok (JStr ''objectGUID'')) attrs")
  case None
  then show ?thesis
    using assms
    by (simp add: resolveGUID_format find_objectGUID_shaped objectGUID_bytes_def res_bind_def)
next
  case (Some a)
  then have "attribute_shaped a" using assms(2) find_shaped by blast
  then obtain kvs bs rest where a: "a = JObj kvs"
    and b: "map_of kvs ''buffers'' = Some (JArr (JBuf bs # rest))"
    by (cases a) (auto split: option.splits jsval.splits list.splits)
  show ?thesis
    using assms Some a b
    by (simp add: resolveGUID_format find_objectGUID_shaped objectGUID_bytes_def res_bind_def)
qed

lemma spec_guid_length: "length (spec_guid bs) = 36"
  by (simp add: spec_guid_def hex_group_def hex2_def)

lemma resolveGUID_reference: "resolveGUID (guid_entry reference_bytes) = Ok (JStr ''17d4e710-624d-4978-900b-8549cb753699'')"
  by (simp add: resolveGUID_format guid_entry_def res_bind_def format_long reference_bytes_def
      spec_guid_def hex_group_def hex2_def digit_char_def)

text \<open>
  C3, as the claim words it, fails: a raw identifier of 17 bytes is not an error, the
  string is formatted from its first 16 bytes.
\<close>

theorem resolveGUID_seventeen_bytes:
  "length (reference_bytes @ [0x01]) = 17
   \<and> resolveGUID (guid_entry (reference_bytes @ [0x01]))
       = Ok (JStr ''17d4e710-624d-4978-900b-8549cb753699'')"
  by (simp add: resolveGUID_format guid_entry_def res_bind_def format_long reference_bytes_def
      spec_guid_def hex_group_def hex2_def digit_char_def)

lemma find_Some_member: "find P xs = Some a \<Longrightarrow> a \<in> set xs \<and> P a"
  by (induction xs) (auto split: if_splits)

lemma objectGUID_bytes_None:
  "list_all attribute_shaped attrs \<Longrightarrow>
   (objectGUID_bytes attrs = None)
     = (\<forall>a \<in> set attrs. get_prop a ''type'' \<noteq> Ok (JStr ''objectGUID''))"
proof (cases "find (\<lambda>a. get_prop a ''type'' = Ok (JStr ''objectGUID'')) attrs")
  case None
  then have "\<forall>a \<in> set attrs. get_prop a ''type'' \<noteq> Ok (JStr ''objectGUID'')"
    by (simp add: find_None_iff)
  then show ?thesis by (simp add: objectGUID_bytes_def None)
next
  case (Some a)
  assume "list_all attribute_shaped attrs"
  then have "attribute_shaped a" using Some find_shaped by blast
  then obtain kvs bs rest where a: "a = JObj kvs"
    and b: "map_of kvs ''buffers'' = Some (JArr (JBuf bs # rest))"
    by (cases a) (auto split: option.splits jsval.splits list.splits)
  have "\<exists>a \<in> set attrs. get_prop a ''type'' = Ok (JStr ''objectGUID'')"
    using find_Some_member [OF Some] by blast
  then show ?thesis using Some a b by (auto simp: objectGUID_bytes_def)
qed

text \<open>
  C3, amended: on a record whose attributes, when they are an array, are attribute
  objects, \<^verbatim>\<open>resolveGUID\<close> throws exactly when the attributes are absent or not an
  array, or no attribute has the type \<^verbatim>\<open>objectGUID\<close>, or the raw identifier is
  shorter than 16 bytes; with 16 bytes or more it returns the string formatted from the
  first 16.
\<close>

theorem resolveGUID_failure_cases:
  assumes "get_prop entry ''attributes'' = Ok attributes"
    and "\<forall>attrs. attributes = JArr attrs \<longrightarrow> list_all attribute_shaped attrs"
  shows "resolveGUID entry =
           (case attributes of
              JArr attrs \<Rightarrow>
                (case objectGUID_bytes attrs of
                   None \<Rightarrow> Throw TypeError
                 | Some bs \<Rightarrow>
                     if length bs < 16 then Throw TypeError else Ok (JStr (spec_guid bs)))
            | _ \<Rightarrow> Throw (new_Error ''Attributes must be an array''))
       \<and> (\<forall>attrs. attributes = JArr attrs \<longrightarrow>
            (objectGUID_bytes attrs = None)
              = (\<forall>a \<in> set attrs. get_prop a ''type'' \<noteq> Ok (JStr ''objectGUID'')))"
proof
  show "resolveGUID entry =
           (case attributes of
              JArr attrs \<Rightarrow>
                (case objectGUID_bytes attrs of
                   None \<Rightarrow> Throw TypeError
                 | Some bs \<Rightarrow>
                     if length bs < 16 then Throw TypeError else Ok (JStr (spec_guid bs)))
            | _ \<Rightarrow> Throw (new_Error ''Attributes must be an array''))"
  proof (cases attributes)
    case (JArr attrs)
    then have sh: "list_all attribute_shaped attrs" using assms(2) by simp
    have "resolveGUID entry =
           (case objectGUID_bytes attrs of None \<Rightarrow> Throw TypeError
            | Some bs \<Rightarrow> format_guid (JBuf bs))"
      using assms(1) JArr sh by (intro resolveGUID_shaped) simp_all
    then show ?thesis
      using JArr format_long format_short
      by (auto split: option.splits simp: not_less)
  qed (use assms(1) in \<open>simp_all add: resolveGUID_def res_bind_def\<close>)
  show "\<forall>attrs. attributes = JArr attrs \<longrightarrow>
            (objectGUID_bytes attrs = None)
              = (\<forall>a \<in> set attrs. get_prop a ''type'' \<noteq> Ok (JStr ''objectGUID''))"
    using assms(2) objectGUID_bytes_None by blast
qed

theorem resolveGUID_failure_cases_witness:
  "get_prop (guid_entry (take 15 reference_bytes)) ''attributes''
     = Ok (JArr [JObj [(''type'', JStr ''objectGUID''),
                       (''buffers'', JArr [JBuf (take 15 reference_bytes)])]])
   \<and> list_all attribute_shaped
        [JObj [(''type'', JStr ''objectGUID''),
               (''buffers'', JArr [JBuf (take 15 reference_bytes)])]]
   \<and> objectGUID_bytes [JObj [(''type'', JStr ''objectGUID''),
               (''buffers'', JArr [JBuf (take 15 reference_bytes)])]]
       = Some (take 15 reference_bytes)
   \<and> length (take 15 reference_bytes) = 15
   \<and> resolveGUID (guid_entry (take 15 reference_bytes)) = Throw TypeError"
proof -
  let ?attrs = "[JObj [(''type'', JStr ''objectGUID''),
                       (''buffers'', JArr [JBuf (take 15 reference_bytes)])]]"
  have a: "get_prop (guid_entry (take 15 reference_bytes)) ''attributes'' = Ok (JArr ?attrs)"
    by (simp add: guid_entry_def)
  have s: "list_all attribute_shaped ?attrs" by simp
  then have b: "\<forall>attrs. JArr ?attrs = JArr attrs \<longrightarrow> list_all attribute_shaped attrs"
    by simp
  have c: "objectGUID_bytes ?attrs = Some (take 15 reference_bytes)"
    by (simp add: objectGUID_bytes_def)
  have d: "length (take 15 reference_bytes) = 15" by (simp add: reference_bytes_def)
  from resolveGUID_failure_cases [OF a b] c d
  have "resolveGUID (guid_entry (take 15 reference_bytes)) = Throw TypeError"
    by simp
  with a s c d show ?thesis by blast
qed

text \<open>
  C7: for every record that carries a 16-byte \<^verbatim>\<open>objectGUID\<close> value,
  \<^verbatim>\<open>resolveGUID\<close> returns the 36 characters made of the five groups of bytes in
  the orders 3 2 1 0, 5 4, 7 6, 8 9 and 10 to 15, each byte as two hexadecimal digits, the
  groups joined by hyphens; the reference bytes give
  \<^verbatim>\<open>17d4e710-624d-4978-900b-8549cb753699\<close>.
\<close>

theorem resolveGUID_sixteen_bytes:
  "(get_prop entry ''attributes'' = Ok (JArr attrs) \<longrightarrow> list_all attribute_shaped attrs \<longrightarrow>
      objectGUID_bytes attrs = Some bs \<longrightarrow> length bs = 16 \<longrightarrow>
      resolveGUID entry = Ok (JStr (spec_guid bs)) \<and> length (spec_guid bs) = 36)
   \<and> resolveGUID (guid_entry reference_bytes)
       = Ok (JStr ''17d4e710-624d-4978-900b-8549cb753699'')"
proof (intro conjI impI)
  assume "get_prop entry ''attributes'' = Ok (JArr attrs)" "list_all attribute_shaped attrs"
    "objectGUID_bytes attrs = Some bs" "length bs = 16"
  then show "resolveGUID entry = Ok (JStr (spec_guid bs))"
    using resolveGUID_shaped [of entry attrs] format_long [of bs] by simp
  show "length (spec_guid bs) = 36" by (rule spec_guid_length)
next
  show "resolveGUID (guid_entry reference_bytes)
       = Ok (JStr ''17d4e710-624d-4978-900b-8549cb753699'')"
    by (rule resolveGUID_reference)
qed

theorem resolveGUID_sixteen_bytes_witness:
  "get_prop (guid_entry reference_bytes) ''attributes''
     = Ok (JArr [JObj [(''type'', JStr ''objectGUID''),
                       (''buffers'', JArr [JBuf reference_bytes])]])
   \<and> list_all attribute_shaped
        [JObj [(''type'', JStr ''objectGUID''), (''buffers'', JArr [JBuf reference_bytes])]]
   \<and> objectGUID_bytes
        [JObj [(''type'', JStr ''objectGUID''), (''buffers'', JArr [JBuf reference_bytes])]]
       = Some reference_bytes
   \<and> length reference_bytes = 16
   \<and> resolveGUID (guid_entry reference_bytes) = Ok (JStr (spec_guid reference_bytes))
   \<and> spec_guid reference_bytes = ''17d4e710-624d-4978-900b-8549cb753699''"
proof -
  let ?attrs = "[JObj [(''type'', JStr ''objectGUID''), (''buffers'', JArr [JBuf reference_bytes])]]"
  have a: "get_prop (guid_entry reference_bytes) ''attributes'' = Ok (JArr ?attrs)"
    by (simp add: guid_entry_def)
  have s: "list_all attribute_shaped ?attrs" by simp
  have c: "objectGUID_bytes ?attrs = Some reference_bytes"
    by (simp add: objectGUID_bytes_def)
  have d: "length reference_bytes = 16" by (simp add: reference_bytes_def)
  note inst = resolveGUID_sixteen_bytes [of "guid_entry reference_bytes" ?attrs reference_bytes]
  from inst a s c d
  have r: "resolveGUID (guid_entry reference_bytes) = Ok (JStr (spec_guid reference_bytes))"
    by blast
  from inst have "resolveGUID (guid_entry reference_bytes)
       = Ok (JStr ''17d4e710-624d-4978-900b-8549cb753699'')" by blast
  with r have e: "spec_guid reference_bytes = ''17d4e710-624d-4978-900b-8549cb753699''"
    by simp
  from a s c d r e show ?thesis by blast
qed

section \<open>A boolean in the place of the base\<close>

lemma detailed_flag_shim:
  "detailed_flag (JBool b) JUndefined = detailed_flag JUndefined (JBool b)"
  by (simp add: detailed_flag_def)

lemma priv_search_boolean_base:
  "priv_search cfg dir (JBool b) search = priv_search cfg dir JUndefined search"
  by (simp add: priv_search_def)

lemma getAllGroups_shim:
  "getAllGroups cfg dir username password (JBool b) JUndefined
     = getAllGroups cfg dir username password JUndefined (JBool b)"
  by (simp add: getAllGroups_def detailed_flag_shim priv_search_boolean_base)

lemma getAllUsers_shim:
  "getAllUsers cfg dir username password (JBool b) JUndefined
     = getAllUsers cfg dir username password JUndefined (JBool b)"
  by (simp add: getAllUsers_def detailed_flag_shim priv_search_boolean_base)

lemma spec_guid_reference:
  "spec_guid reference_bytes = ''17d4e710-624d-4978-900b-8549cb753699''"
  by (simp add: reference_bytes_def spec_guid_def hex_group_def hex2_def digit_char_def)

lemma resolveGUID_user_example:
  "resolveGUID user_example = Ok (JStr ''17d4e710-624d-4978-900b-8549cb753699'')"
proof -
  have "16 \<le> length reference_bytes" by (simp add: reference_bytes_def)
  then have "format_guid (JBuf reference_bytes)
               = Ok (JStr ''17d4e710-624d-4978-900b-8549cb753699'')"
    by (simp add: format_long spec_guid_reference)
  then show ?thesis
    by (simp add: resolveGUID_format user_example_def res_bind_def)
qed

lemma resolveGUID_group_record_example:
  "resolveGUID group_record_example = Ok (JStr ''17d4e710-624d-4978-900b-8549cb753699'')"
proof -
  have "16 \<le> length reference_bytes" by (simp add: reference_bytes_def)
  then have "format_guid (JBuf reference_bytes)
               = Ok (JStr ''17d4e710-624d-4978-900b-8549cb753699'')"
    by (simp add: format_long spec_guid_reference)
  then show ?thesis
    by (simp add: resolveGUID_format group_record_example_def res_bind_def)
qed

lemma resolveGroups_user_example:
  "resolveGroups user_example = Ok (JArr [JStr ''Group1'', JStr ''Group2''])"
  by (simp add: resolveGroups_def user_example_def res_bind_def group_of_element_def
      js_split_def str_at_def)

lemma createUserObj_user_example: "createUserObj user_example = Ok user_formatted"
proof -
  have fields: "field_or_empty user_example ''telephoneNumber'' = Ok (JStr ''+1 12312312324'')"
    "field_or_empty user_example ''name'' = Ok (JStr ''Test User'')"
    "field_or_empty user_example ''mail'' = Ok (JStr ''test@domain.com'')"
    "get_prop user_example ''objectName'' = Ok (JStr ''CN=Test User,OU=Test,DC=domain,DC=com'')"
    "js_typeof user_example = ''object''"
    by (simp_all add: field_or_empty_def user_example_def res_bind_def js_or_def)
  show ?thesis
    by (simp add: createUserObj_def fields resolveGroups_user_example resolveGUID_user_example
        res_bind_def user_formatted_def)
qed

lemma getDetails_group_record_example:
  "getDetails [group_record_example] = Ok [group_detailed]"
proof -
  have fields: "object_field group_record_example ''name'' = Ok (JStr ''Group1'')"
    "object_field group_record_example ''dn'' = Ok (JStr ''CN=Group1,OU=Test,DC=domain,DC=com'')"
    "object_field group_record_example ''description'' = Ok (JStr ''Test group'')"
    "object_field group_record_example ''whenCreated'' = Ok (JStr ''20190102030405.0Z'')"
    "object_field group_record_example ''whenChanged'' = Ok (JStr ''20190203040506.0Z'')"
    by (simp_all add: object_field_def group_record_example_def res_bind_def)
  show ?thesis
    by (simp add: getDetails_def fields resolveGUID_group_record_example res_bind_def
        js_slice_def group_detailed_def)
qed

lemma getAllUsers_result:
  assumes "create_reply dir (ldapjsSettings cfg) = Created"
    and "\<not> js_truthy (bind_err dir u p)"
    and "search_reply dir (base cfg) (users_search cfg) = SearchStream records End"
  shows "fst (getAllUsers cfg dir (JStr u) (JStr p) (JBool b) JUndefined)
           = (case (if b then res_map createUserObj records else Ok records) of
                Ok users \<Rightarrow> Ok (JObj [(''success'', JBool True), (''users'', JArr users)])
              | Throw e \<Rightarrow> failure e
              | Unsupported \<Rightarrow> Unsupported)"
  using assms
  by (simp add: getAllUsers_def run_defs createClient_def priv_bind_def priv_search_def
      detailed_flag_def res_bind_def split: res.splits)

lemma getAllGroups_result:
  assumes "create_reply dir (ldapjsSettings cfg) = Created"
    and "\<not> js_truthy (bind_err dir u p)"
    and "search_reply dir (base cfg) (groups_search cfg (JBool b)) = SearchStream records End"
  shows "fst (getAllGroups cfg dir (JStr u) (JStr p) (JBool b) JUndefined)
           = (case (if b then getDetails records
                    else res_map (\<lambda>entry. object_field entry ''name'') records) of
                Ok groups \<Rightarrow> Ok (JObj [(''success'', JBool True), (''groups'', JArr groups)])
              | Throw e \<Rightarrow> failure e
              | Unsupported \<Rightarrow> Unsupported)"
  using assms
  by (simp add: getAllGroups_def run_defs createClient_def priv_bind_def priv_search_def
      detailed_flag_def res_bind_def split: res.splits)

text \<open>
  C9: when the base argument of \<^verbatim>\<open>getAllGroups\<close> or \<^verbatim>\<open>getAllUsers\<close> is a boolean
  and the flag argument is omitted, the call behaves exactly as the call that passes no
  base and passes the boolean as the flag; the search it issues is made on the configured
  base (for the groups, with the attributes the boolean selects); and when the client is
  created, the bind accepted and the search ended, the boolean decides the result: the
  groups are the detailed records or the names, the users are the records formatted by
  \<^verbatim>\<open>createUserObj\<close> or the records as they came.
\<close>

theorem boolean_base_is_flag:
  "getAllGroups cfg dir username password (JBool b) JUndefined
     = getAllGroups cfg dir username password JUndefined (JBool b)
   \<and> getAllUsers cfg dir username password (JBool b) JUndefined
     = getAllUsers cfg dir username password JUndefined (JBool b)
   \<and> (\<forall>c \<in> set (snd (getAllGroups cfg dir username password (JBool b) JUndefined)).
        \<forall>bs s. c = Search bs s \<longrightarrow> bs = base cfg \<and> s = groups_search cfg (JBool b))
   \<and> (\<forall>c \<in> set (snd (getAllUsers cfg dir username password (JBool b) JUndefined)).
        \<forall>bs s. c = Search bs s \<longrightarrow> bs = base cfg)
   \<and> (create_reply dir (ldapjsSettings cfg) = Created \<longrightarrow> \<not> js_truthy (bind_err dir u p) \<longrightarrow>
        search_reply dir (base cfg) (groups_search cfg (JBool b)) = SearchStream records End \<longrightarrow>
        fst (getAllGroups cfg dir (JStr u) (JStr p) (JBool b) JUndefined)
          = (case (if b then getDetails records
                   else res_map (\<lambda>entry. object_field entry ''name'') records) of
               Ok groups \<Rightarrow> Ok (JObj [(''success'', JBool True), (''groups'', JArr groups)])
             | Throw e \<Rightarrow> failure e
             | Unsupported \<Rightarrow> Unsupported))
   \<and> (create_reply dir (ldapjsSettings cfg) = Created \<longrightarrow> \<not> js_truthy (bind_err dir u p) \<longrightarrow>
        search_reply dir (base cfg) (users_search cfg) = SearchStream records End \<longrightarrow>
        fst (getAllUsers cfg dir (JStr u) (JStr p) (JBool b) JUndefined)
          = (case (if b then res_map createUserObj records else Ok records) of
               Ok users \<Rightarrow> Ok (JObj [(''success'', JBool True), (''users'', JArr users)])
             | Throw e \<Rightarrow> failure e
             | Unsupported \<Rightarrow> Unsupported))"
proof (intro conjI impI)
  show "getAllGroups cfg dir username password (JBool b) JUndefined
     = getAllGroups cfg dir username password JUndefined (JBool b)"
    by (rule getAllGroups_shim)
  show "getAllUsers cfg dir username password (JBool b) JUndefined
     = getAllUsers cfg dir username password JUndefined (JBool b)"
    by (rule getAllUsers_shim)
  show "\<forall>c \<in> set (snd (getAllGroups cfg dir username password (JBool b) JUndefined)).
        \<forall>bs s. c = Search bs s \<longrightarrow> bs = base cfg \<and> s = groups_search cfg (JBool b)"
    using getAllGroups_calls [of _ cfg dir username password "JBool b" JUndefined]
    by (auto simp: detailed_flag_def)
  show "\<forall>c \<in> set (snd (getAllUsers cfg dir username password (JBool b) JUndefined)).
        \<forall>bs s. c = Search bs s \<longrightarrow> bs = base cfg"
    using getAllUsers_calls [of _ cfg dir username password "JBool b" JUndefined]
    by auto
next
  assume "create_reply dir (ldapjsSettings cfg) = Created" "\<not> js_truthy (bind_err dir u p)"
    "search_reply dir (base cfg) (groups_search cfg (JBool b)) = SearchStream records End"
  then show "fst (getAllGroups cfg dir (JStr u) (JStr p) (JBool b) JUndefined)
          = (case (if b then getDetails records
                   else res_map (\<lambda>entry. object_field entry ''name'') records) of
               Ok groups \<Rightarrow> Ok (JObj [(''success'', JBool True), (''groups'', JArr groups)])
             | Throw e \<Rightarrow> failure e
             | Unsupported \<Rightarrow> Unsupported)"
    by (rule getAllGroups_result)
next
  assume "create_reply dir (ldapjsSettings cfg) = Created" "\<not> js_truthy (bind_err dir u p)"
    "search_reply dir (base cfg) (users_search cfg) = SearchStream records End"
  then show "fst (getAllUsers cfg dir (JStr u) (JStr p) (JBool b) JUndefined)
          = (case (if b then res_map createUserObj records else Ok records) of
               Ok users \<Rightarrow> Ok (JObj [(''success'', JBool True), (''users'', JArr users)])
             | Throw e \<Rightarrow> failure e
             | Unsupported \<Rightarrow> Unsupported)"
    by (rule getAllUsers_result)
qed

theorem boolean_base_is_flag_witness:
  "fst (getAllUsers cfg_example (dir_accepting [user_example]) (JStr ''test@domain.local'')
          (JStr ''password'') (JBool True) JUndefined)
     = Ok (JObj [(''success'', JBool True), (''users'', JArr [user_formatted])])
   \<and> fst (getAllUsers cfg_example (dir_accepting [user_example]) (JStr ''test@domain.local'')
          (JStr ''password'') (JBool False) JUndefined)
     = Ok (JObj [(''success'', JBool True), (''users'', JArr [user_example])])
   \<and> fst (getAllGroups cfg_example (dir_accepting [group_record_example])
          (JStr ''test@domain.local'') (JStr ''password'') (JBool True) JUndefined)
     = Ok (JObj [(''success'', JBool True), (''groups'', JArr [group_detailed])])
   \<and> fst (getAllGroups cfg_example (dir_accepting [group_record_example])
          (JStr ''test@domain.local'') (JStr ''password'') (JBool False) JUndefined)
     = Ok (JObj [(''success'', JBool True), (''groups'', JArr [JStr ''Group1''])])
   \<and> Search (JStr ''dc=domain,dc=local'')
        (JObj [(''attributes'', JArr [JStr ''name'', JStr ''dn'', JStr ''objectGUID'',
                                      JStr ''description'', JStr ''whenCreated'',
                                      JStr ''whenChanged'']),
               (''filter'', JStr ''(objectCategory=group)''),
               (''scope'', JStr ''sub''), (''sizeLimit'', JNum 10)])
       \<in> set (snd (getAllGroups cfg_example (dir_accepting [group_record_example])
            (JStr ''test@domain.local'') (JStr ''password'') (JBool True) JUndefined))
   \<and> JStr ''dc=domain,dc=local'' = base cfg_example
   \<and> groups_search cfg_example (JBool True)
       = JObj [(''attributes'', JArr [JStr ''name'', JStr ''dn'', JStr ''objectGUID'',
                                      JStr ''description'', JStr ''whenCreated'',
                                      JStr ''whenChanged'']),
               (''filter'', JStr ''(objectCategory=group)''),
               (''scope'', JStr ''sub''), (''sizeLimit'', JNum 10)]"
proof -
  let ?u = "''test@domain.local''" and ?p = "''password''"
  let ?search = "JObj [(''attributes'', JArr [JStr ''name'', JStr ''dn'', JStr ''objectGUID'',
                                      JStr ''description'', JStr ''whenCreated'',
                                      JStr ''whenChanged'']),
               (''filter'', JStr ''(objectCategory=group)''),
               (''scope'', JStr ''sub''), (''sizeLimit'', JNum 10)]"
  have created: "create_reply (dir_accepting rs) (ldapjsSettings cfg_example) = Created" for rs
    by (simp add: dir_accepting_def)
  have bound: "\<not> js_truthy (bind_err (dir_accepting rs) ?u ?p)" for rs
    by (simp add: dir_accepting_def)
  have users: "search_reply (dir_accepting rs) (base cfg_example) (users_search cfg_example)
                 = SearchStream rs End" for rs
    by (simp add: dir_accepting_def)
  have groups: "search_reply (dir_accepting rs) (base cfg_example)
                  (groups_search cfg_example (JBool b)) = SearchStream rs End" for rs b
    by (simp add: dir_accepting_def)
  note inst = boolean_base_is_flag [of cfg_example _ "JStr ?u" "JStr ?p" _ ?u ?p]
  note groups_inst = inst [THEN conjunct2, THEN conjunct2, THEN conjunct2, THEN conjunct2,
      THEN conjunct1, rule_format, OF created bound groups]
  note users_inst = inst [THEN conjunct2, THEN conjunct2, THEN conjunct2, THEN conjunct2,
      THEN conjunct2, rule_format, OF created bound users]
  have "fst (getAllUsers cfg_example (dir_accepting [user_example]) (JStr ?u) (JStr ?p)
               (JBool True) JUndefined)
          = (case (if True then res_map createUserObj [user_example] else Ok [user_example]) of
               Ok users \<Rightarrow> Ok (JObj [(''success'', JBool True), (''users'', JArr users)])
             | Throw e \<Rightarrow> failure e
             | Unsupported \<Rightarrow> Unsupported)"
    by (rule users_inst)
  then have u1: "fst (getAllUsers cfg_example (dir_accepting [user_example]) (JStr ?u) (JStr ?p)
                   (JBool True) JUndefined)
              = Ok (JObj [(''success'', JBool True), (''users'', JArr [user_formatted])])"
    by (simp add: createUserObj_user_example res_bind_def)
  have "fst (getAllUsers cfg_example (dir_accepting [user_example]) (JStr ?u) (JStr ?p)
               (JBool False) JUndefined)
          = (case (if False then res_map createUserObj [user_example] else Ok [user_example]) of
               Ok users \<Rightarrow> Ok (JObj [(''success'', JBool True), (''users'', JArr users)])
             | Throw e \<Rightarrow> failure e
             | Unsupported \<Rightarrow> Unsupported)"
    by (rule users_inst)
  then have u2: "fst (getAllUsers cfg_example (dir_accepting [user_example]) (JStr ?u) (JStr ?p)
                   (JBool False) JUndefined)
              = Ok (JObj [(''success'', JBool True), (''users'', JArr [user_example])])"
    by simp
  have "fst (getAllGroups cfg_example (dir_accepting [group_record_example]) (JStr ?u)
               (JStr ?p) (JBool True) JUndefined)
          = (case (if True then getDetails [group_record_example]
                   else res_map (\<lambda>entry. object_field entry ''name'') [group_record_example]) of
               Ok groups \<Rightarrow> Ok (JObj [(''success'', JBool True), (''groups'', JArr groups)])
             | Throw e \<Rightarrow> failure e
             | Unsupported \<Rightarrow> Unsupported)"
    by (rule groups_inst)
  then have g1: "fst (getAllGroups cfg_example (dir_accepting [group_record_example]) (JStr ?u)
                   (JStr ?p) (JBool True) JUndefined)
              = Ok (JObj [(''success'', JBool True), (''groups'', JArr [group_detailed])])"
    by (simp add: getDetails_group_record_example)
  have "fst (getAllGroups cfg_example (dir_accepting [group_record_example]) (JStr ?u)
               (JStr ?p) (JBool False) JUndefined)
          = (case (if False then getDetails [group_record_example]
                   else res_map (\<lambda>entry. object_field entry ''name'') [group_record_example]) of
               Ok groups \<Rightarrow> Ok (JObj [(''success'', JBool True), (''groups'', JArr groups)])
             | Throw e \<Rightarrow> failure e
             | Unsupported \<Rightarrow> Unsupported)"
    by (rule groups_inst)
  then have g2: "fst (getAllGroups cfg_example (dir_accepting [group_record_example]) (JStr ?u)
                   (JStr ?p) (JBool False) JUndefined)
              = Ok (JObj [(''success'', JBool True), (''groups'', JArr [JStr ''Group1''])])"
    by (simp add: object_field_def group_record_example_def res_bind_def)
  have gs: "groups_search cfg_example (JBool True) = ?search"
    by (simp add: groups_search_def cfg_example_def)
  have mem: "Search (JStr ''dc=domain,dc=local'') ?search
               \<in> set (snd (getAllGroups cfg_example (dir_accepting [group_record_example])
                    (JStr ?u) (JStr ?p) (JBool True) JUndefined))"
    by (simp add: getAllGroups_def run_defs createClient_def priv_bind_def priv_search_def
        dir_accepting_def detailed_flag_def getDetails_group_record_example res_bind_def
        groups_search_def cfg_example_def)
  from inst [THEN conjunct2, THEN conjunct2, THEN conjunct1,
      of "dir_accepting [group_record_example]" True] mem
  have b: "JStr ''dc=domain,dc=local'' = base cfg_example"
    by blast
  from u1 u2 g1 g2 mem b gs show ?thesis by blast
qed

end
